theory Spec2Isabelle
  imports Complex_Main "HOL-Library.Option_ord"
begin

section \<open>Data model (setup\_database.py)\<close>

text \<open>
  The three tables of \<^verbatim>\<open>setup_database.py\<close>, one record per row. Column
  \<^verbatim>\<open>created_at\<close> (filled by the storage engine's clock, read by no query) is left out.
  \<^verbatim>\<open>INTEGER\<close> columns are \<^typ>\<open>int\<close>, \<^verbatim>\<open>TEXT\<close> columns are strings. A
  \<^verbatim>\<open>REAL\<close> amount is an exact rational: binary rounding error of the floating-point
  column is not part of the model. A timestamp is the number of microseconds since a fixed
  epoch (the resolution of Python's \<^verbatim>\<open>datetime\<close>).
\<close>

record customer =
  c_id :: int
  c_name :: string
  c_email :: string
  c_phone :: string
  c_document :: string

record merchant =
  m_id :: int
  m_name :: string
  m_category :: string
  m_document :: string

record transaction =
  t_id :: int
  t_customer_id :: int
  t_merchant_id :: int
  t_amount :: rat
  t_payment_method :: string
  t_status :: string
  t_date :: int
  t_description :: string

text \<open>
  The content of the file \<^verbatim>\<open>fintech_data.db\<close>: the names of the schema objects created
  by DDL statements, the rows of each table in insertion order, and for each
  \<^verbatim>\<open>AUTOINCREMENT\<close> key the largest row id handed out so far (it survives
  \<^verbatim>\<open>DELETE\<close>). Objects the engine creates on its own (its sequence table, the automatic
  indexes behind \<^verbatim>\<open>UNIQUE\<close>) are not listed.
\<close>

record database =
  db_tables :: "string list"
  db_indexes :: "string list"
  db_views :: "string list"
  customers :: "customer list"
  merchants :: "merchant list"
  transactions :: "transaction list"
  seq_customers :: int
  seq_merchants :: int
  seq_transactions :: int

section \<open>SQL building blocks\<close>

text \<open>\<^verbatim>\<open>ROUND(x, 2)\<close>: two decimals, a tie goes away from zero.\<close>

definition sql_round2 :: "rat \<Rightarrow> rat" where
  "sql_round2 x =
     (if 0 \<le> x then of_int \<lfloor>x * 100 + 1 / 2\<rfloor> / 100
      else - (of_int \<lfloor>- x * 100 + 1 / 2\<rfloor> / 100))"

text \<open>
  \<^verbatim>\<open>NULL\<close> is \<^const>\<open>None\<close>. \<^verbatim>\<open>SUM\<close> and \<^verbatim>\<open>AVG\<close> over no rows are
  \<^verbatim>\<open>NULL\<close>; arithmetic with \<^verbatim>\<open>NULL\<close> is \<^verbatim>\<open>NULL\<close>; a division by zero is
  \<^verbatim>\<open>NULL\<close> too (the engine raises nothing).
\<close>

definition sql_sum :: "rat list \<Rightarrow> rat option" where
  "sql_sum xs = (if xs = [] then None else Some (sum_list xs))"

definition sql_avg :: "rat list \<Rightarrow> rat option" where
  "sql_avg xs = (if xs = [] then None else Some (sum_list xs / of_nat (length xs)))"

definition sql_mul :: "rat \<Rightarrow> rat option \<Rightarrow> rat option" where
  "sql_mul a x = map_option (\<lambda>v. a * v) x"

definition sql_div :: "rat option \<Rightarrow> nat \<Rightarrow> rat option" where
  "sql_div x n = (case x of None \<Rightarrow> None
                  | Some v \<Rightarrow> if n = 0 then None else Some (v / of_nat n))"

definition sql_round :: "rat option \<Rightarrow> rat option" where
  "sql_round x = map_option sql_round2 x"

text \<open>\<^verbatim>\<open>LIMIT n\<close>: a negative \<^verbatim>\<open>n\<close> means no limit.\<close>

definition sql_limit :: "int \<Rightarrow> 'a list \<Rightarrow> 'a list" where
  "sql_limit n xs = (if n < 0 then xs else take (nat n) xs)"

text \<open>
  \<^verbatim>\<open>ORDER BY key DESC\<close>, with \<^verbatim>\<open>NULL\<close> below every value. SQL leaves the order of
  rows with equal keys open; the model keeps them in their order of arrival.
\<close>

definition order_by_desc :: "('r \<Rightarrow> 'k::linorder) \<Rightarrow> 'r list \<Rightarrow> 'r list" where
  "order_by_desc key rows = rev (sort_key key (rev rows))"

text \<open>
  \<^verbatim>\<open>GROUP BY key\<close>: one group per distinct key, holding the rows with that key. The
  order of the groups is open in SQL as well.
\<close>

definition group_by :: "('r \<Rightarrow> 'k) \<Rightarrow> 'r list \<Rightarrow> 'r list list" where
  "group_by key rows = map (\<lambda>k. filter (\<lambda>r. key r = k) rows) (remdups (map key rows))"

text \<open>\<^verbatim>\<open>strftime('%Y-%m-%d %H', ts)\<close> and \<^verbatim>\<open>DATE(ts)\<close>: the hour and the day a
  timestamp falls in.\<close>

definition hour_window :: "int \<Rightarrow> int" where
  "hour_window ts = ts div 3600000000"

definition sql_date :: "int \<Rightarrow> int" where
  "sql_date ts = ts div 86400000000"

text \<open>\<^verbatim>\<open>SUM(CASE WHEN status = 'approved' THEN 1 ELSE 0 END)\<close> and its sibling on
  amounts.\<close>

definition approved_flag :: "transaction \<Rightarrow> rat" where
  "approved_flag t = (if t_status t = ''approved'' then 1 else 0)"


section \<open>Query layer (database.py)\<close>

subsection \<open>get\_top\_merchants\<close>

record merchant_row =
  mr_name :: string
  mr_category :: string
  mr_total_transactions :: nat
  mr_total_volume :: "rat option"
  mr_avg_ticket :: "rat option"
  mr_approval_rate :: "rat option"

text \<open>\<^verbatim>\<open>FROM merchants m JOIN transactions t ON m.id = t.merchant_id\<close>.\<close>

definition merchants_join :: "database \<Rightarrow> (merchant \<times> transaction) list" where
  "merchants_join db =
     [(m, t). m \<leftarrow> merchants db, t \<leftarrow> transactions db, m_id m = t_merchant_id t]"

text \<open>One output row per group; a group without rows does not exist and yields none. The
  bare columns \<^verbatim>\<open>m.name\<close> and \<^verbatim>\<open>m.category\<close> are read off a row of the group.\<close>

fun top_merchants_group :: "(merchant \<times> transaction) list \<Rightarrow> merchant_row list" where
  "top_merchants_group [] = []"
| "top_merchants_group ((m, t) # g) =
     (let ts = t # map snd g in
      [\<lparr>mr_name = m_name m, mr_category = m_category m,
        mr_total_transactions = length ts,
        mr_total_volume = sql_round (sql_sum (map t_amount ts)),
        mr_avg_ticket = sql_round (sql_avg (map t_amount ts)),
        mr_approval_rate =
          sql_round (sql_div (sql_mul 100 (sql_sum (map approved_flag ts))) (length ts))\<rparr>])"

definition get_top_merchants :: "database \<Rightarrow> int \<Rightarrow> merchant_row list" where
  "get_top_merchants db limit =
     sql_limit limit
       (order_by_desc mr_total_volume
          (concat (map top_merchants_group
             (group_by (\<lambda>(m, t). m_id m)
                (filter (\<lambda>(m, t). t_status t = ''approved'') (merchants_join db))))))"

subsection \<open>get\_category\_performance\<close>




subsection \<open>get\_anomalies\<close>

record high_value_row =
  hv_id :: int
  hv_transaction_date :: int
  hv_customer_name :: string
  hv_merchant_name :: string
  hv_amount :: rat
  hv_payment_method :: string
  hv_status :: string
  hv_anomaly_type :: string

text \<open>\<^verbatim>\<open>FROM transactions t JOIN customers c ON t.customer_id = c.id JOIN merchants m ON
  t.merchant_id = m.id\<close>, shared by the high-value query and the filtered listing.\<close>

definition transactions_join :: "database \<Rightarrow> (transaction \<times> customer \<times> merchant) list" where
  "transactions_join db =
     [(t, c, m). t \<leftarrow> transactions db,
                 c \<leftarrow> customers db, t_customer_id t = c_id c,
                 m \<leftarrow> merchants db, t_merchant_id t = m_id m]"

definition high_value_select :: "transaction \<times> customer \<times> merchant \<Rightarrow> high_value_row" where
  "high_value_select = (\<lambda>(t, c, m).
     \<lparr>hv_id = t_id t, hv_transaction_date = t_date t, hv_customer_name = c_name c,
      hv_merchant_name = m_name m, hv_amount = t_amount t,
      hv_payment_method = t_payment_method t, hv_status = t_status t,
      hv_anomaly_type = ''high_value''\<rparr>)"

definition query_high_value :: "database \<Rightarrow> rat \<Rightarrow> high_value_row list" where
  "query_high_value db threshold_amount =
     sql_limit 50
       (order_by_desc hv_amount
          (map high_value_select
             (filter (\<lambda>(t, c, m). t_amount t > threshold_amount) (transactions_join db))))"

record customer_hourly_row =
  ch_customer_id :: int
  ch_hour_window :: int
  ch_transactions_count :: nat

text \<open>The common table expression \<^verbatim>\<open>customer_hourly\<close>.\<close>

fun customer_hourly_group :: "transaction list \<Rightarrow> customer_hourly_row list" where
  "customer_hourly_group [] = []"
| "customer_hourly_group (t # g) =
     [\<lparr>ch_customer_id = t_customer_id t, ch_hour_window = hour_window (t_date t),
       ch_transactions_count = Suc (length g)\<rparr>]"

definition customer_hourly :: "database \<Rightarrow> int \<Rightarrow> customer_hourly_row list" where
  "customer_hourly db threshold_frequency =
     filter (\<lambda>ch. int (ch_transactions_count ch) \<ge> threshold_frequency)
       (concat (map customer_hourly_group
          (group_by (\<lambda>t. (t_customer_id t, hour_window (t_date t))) (transactions db))))"

record high_frequency_row =
  hf_customer_id :: int
  hf_customer_name :: string
  hf_hour_window :: int
  hf_transactions_count :: nat
  hf_anomaly_type :: string

fun high_frequency_group ::
  "(customer_hourly_row \<times> customer \<times> transaction) list \<Rightarrow> high_frequency_row list" where
  "high_frequency_group [] = []"
| "high_frequency_group ((ch, c, t) # g) =
     [\<lparr>hf_customer_id = t_customer_id t, hf_customer_name = c_name c,
       hf_hour_window = ch_hour_window ch,
       hf_transactions_count = ch_transactions_count ch,
       hf_anomaly_type = ''high_frequency''\<rparr>]"

definition frequency_join ::
  "database \<Rightarrow> int \<Rightarrow> (customer_hourly_row \<times> customer \<times> transaction) list" where
  "frequency_join db threshold_frequency =
     [(ch, c, t).
      ch \<leftarrow> customer_hourly db threshold_frequency,
      c \<leftarrow> customers db, ch_customer_id ch = c_id c,
      t \<leftarrow> transactions db,
      t_customer_id t = ch_customer_id ch \<and> hour_window (t_date t) = ch_hour_window ch]"

definition query_frequency :: "database \<Rightarrow> int \<Rightarrow> high_frequency_row list" where
  "query_frequency db threshold_frequency =
     sql_limit 50
       (order_by_desc hf_transactions_count
          (concat (map high_frequency_group
             (group_by (\<lambda>(ch, c, t). (t_customer_id t, ch_hour_window ch))
                (frequency_join db threshold_frequency)))))"

definition get_anomalies ::
  "database \<Rightarrow> rat \<Rightarrow> int \<Rightarrow> high_value_row list \<times> high_frequency_row list" where
  "get_anomalies db threshold_amount threshold_frequency =
     (query_high_value db threshold_amount, query_frequency db threshold_frequency)"

subsection \<open>get\_kpis\<close>



subsection \<open>get\_transactions\_filtered\<close>

record listing_row =
  lr_id :: int
  lr_transaction_date :: int
  lr_customer_name :: string
  lr_merchant_name :: string
  lr_category :: string
  lr_amount :: rat
  lr_payment_method :: string
  lr_status :: string
  lr_description :: string

text \<open>
  The query text is assembled from the optional arguments; each one that is given adds a
  predicate. Python's \<^verbatim>\<open>if x:\<close> is false for \<^verbatim>\<open>None\<close> and for the empty string. The
  dates are day numbers (a date object is always true).
\<close>

definition date_filter :: "int option \<Rightarrow> (int \<Rightarrow> bool) \<Rightarrow> bool" where
  "date_filter d p = (case d of None \<Rightarrow> True | Some v \<Rightarrow> p v)"

definition text_filter :: "string option \<Rightarrow> string \<Rightarrow> bool" where
  "text_filter s column =
     (case s of None \<Rightarrow> True
      | Some v \<Rightarrow> if v \<noteq> [] \<and> v \<noteq> ''Todos'' then column = v else True)"

definition listing_where ::
  "int option \<Rightarrow> int option \<Rightarrow> string option \<Rightarrow> string option \<Rightarrow> transaction \<Rightarrow> bool" where
  "listing_where start_date end_date payment_method status t =
     (date_filter start_date (\<lambda>d. sql_date (t_date t) \<ge> d)
      \<and> date_filter end_date (\<lambda>d. sql_date (t_date t) \<le> d)
      \<and> text_filter payment_method (t_payment_method t)
      \<and> text_filter status (t_status t))"

definition listing_select :: "transaction \<times> customer \<times> merchant \<Rightarrow> listing_row" where
  "listing_select = (\<lambda>(t, c, m).
     \<lparr>lr_id = t_id t, lr_transaction_date = t_date t, lr_customer_name = c_name c,
      lr_merchant_name = m_name m, lr_category = m_category m, lr_amount = t_amount t,
      lr_payment_method = t_payment_method t, lr_status = t_status t,
      lr_description = t_description t\<rparr>)"

definition get_transactions_filtered ::
  "database \<Rightarrow> int option \<Rightarrow> int option \<Rightarrow> string option \<Rightarrow> string option \<Rightarrow> int
     \<Rightarrow> listing_row list" where
  "get_transactions_filtered db start_date end_date payment_method status limit =
     sql_limit limit
       (order_by_desc lr_transaction_date
          (map listing_select
             (filter (\<lambda>(t, c, m). listing_where start_date end_date payment_method status t)
                (transactions_join db))))"

section \<open>Schema provisioner (setup\_database.py)\<close>

datatype error = IntegrityError | OperationalError | IndexError | ValueError | TypeError

text \<open>What \<^verbatim>\<open>sqlite3.connect\<close> opens when the file does not exist.\<close>

definition empty_database :: database where
  "empty_database =
     \<lparr>db_tables = [], db_indexes = [], db_views = [], customers = [], merchants = [],
      transactions = [], seq_customers = 0, seq_merchants = 0, seq_transactions = 0\<rparr>"

datatype ddl =
    CreateTableIfNotExists string
  | CreateIndex string string
  | CreateViewIfNotExists string

text \<open>
  Tables and views share their names: \<^verbatim>\<open>IF NOT EXISTS\<close> skips the statement when the
  name is taken. \<^verbatim>\<open>CREATE INDEX\<close> has no such clause: it raises when the index exists or
  its table does not.
\<close>

fun execute_ddl :: "ddl \<Rightarrow> database \<Rightarrow> error + database" where
  "execute_ddl (CreateTableIfNotExists name) db =
     (if name \<in> set (db_tables db) \<or> name \<in> set (db_views db) then Inr db
      else Inr (db\<lparr>db_tables := db_tables db @ [name]\<rparr>))"
| "execute_ddl (CreateIndex name table) db =
     (if name \<in> set (db_indexes db) \<or> table \<notin> set (db_tables db) then Inl OperationalError
      else Inr (db\<lparr>db_indexes := db_indexes db @ [name]\<rparr>))"
| "execute_ddl (CreateViewIfNotExists name) db =
     (if name \<in> set (db_tables db) \<or> name \<in> set (db_views db) then Inr db
      else Inr (db\<lparr>db_views := db_views db @ [name]\<rparr>))"

text \<open>The statements run one by one, each written to the file at once; the first that
  raises ends the run.\<close>

fun run_ddl :: "ddl list \<Rightarrow> database \<Rightarrow> (error + unit) \<times> database" where
  "run_ddl [] db = (Inr (), db)"
| "run_ddl (s # ss) db =
     (case execute_ddl s db of Inl e \<Rightarrow> (Inl e, db) | Inr db' \<Rightarrow> run_ddl ss db')"

definition schema_statements :: "ddl list" where
  "schema_statements =
     [CreateTableIfNotExists ''customers'',
      CreateTableIfNotExists ''merchants'',
      CreateTableIfNotExists ''transactions'',
      CreateIndex ''idx_transaction_date'' ''transactions'',
      CreateIndex ''idx_transaction_status'' ''transactions'',
      CreateIndex ''idx_transaction_method'' ''transactions'',
      CreateIndex ''idx_customer_id'' ''transactions'',
      CreateIndex ''idx_merchant_id'' ''transactions'',
      CreateViewIfNotExists ''daily_summary'',
      CreateViewIfNotExists ''merchant_performance'']"

text \<open>
  The file system is \<^const>\<open>None\<close> when \<^verbatim>\<open>fintech_data.db\<close> does not exist. An
  existing file is removed first, then the connection opens a new one.
\<close>

definition create_database :: "database option \<Rightarrow> (error + unit) \<times> database option" where
  "create_database fs =
     (let fs' = (case fs of Some old \<Rightarrow> None | None \<Rightarrow> None);
          db = (case fs' of Some existing \<Rightarrow> existing | None \<Rightarrow> empty_database);
          (r, db') = run_ddl schema_statements db
      in (r, Some db'))"

section \<open>Synthetic data generator (generate\_data.py)\<close>

subsection \<open>Configuration\<close>

text \<open>
  The module constants \<^verbatim>\<open>NUM_CUSTOMERS\<close>, \<^verbatim>\<open>NUM_MERCHANTS\<close> and
  \<^verbatim>\<open>NUM_TRANSACTIONS\<close> are passed as a record, so that the generator can be run on
  small counts; \<open>default_config\<close> holds the values of the source.
\<close>

record config =
  NUM_CUSTOMERS :: nat
  NUM_MERCHANTS :: nat
  NUM_TRANSACTIONS :: nat

definition default_config :: config where
  "default_config = \<lparr>NUM_CUSTOMERS = 500, NUM_MERCHANTS = 50, NUM_TRANSACTIONS = 10000\<rparr>"

text \<open>Strings are UTF-8 bytes, as the engine stores them.\<close>

definition CATEGORIES :: "string list" where
  "CATEGORIES =
     [''Supermercado'', ''Restaurante'', ''Farm'' @ [CHR 0xC3, CHR 0xA1] @ ''cia'',
      ''Posto de Gasolina'', ''Loja de Roupas'',
      ''Eletr'' @ [CHR 0xC3, CHR 0xB4] @ ''nicos'', ''Padaria'', ''Livraria'',
      ''Academia'', ''Pet Shop'', ''Cosm'' @ [CHR 0xC3, CHR 0xA9] @ ''ticos'',
      ''Material de Constru'' @ [CHR 0xC3, CHR 0xA7, CHR 0xC3, CHR 0xA3] @ ''o'']"

definition PAYMENT_METHODS :: "string list" where
  "PAYMENT_METHODS = [''pix'', ''credit_card'', ''debit_card'', ''boleto'']"

definition STATUSES :: "string list" where
  "STATUSES = [''approved'', ''declined'', ''pending'', ''refunded'']"

definition STATUS_WEIGHTS :: "rat list" where
  "STATUS_WEIGHTS = [85 / 100, 10 / 100, 3 / 100, 2 / 100]"

definition METHOD_WEIGHTS :: "rat list" where
  "METHOD_WEIGHTS = [40 / 100, 35 / 100, 20 / 100, 5 / 100]"

definition descriptions :: "string list" where
  "descriptions =
     [''Compra em estabelecimento'',
      ''Pagamento de servi'' @ [CHR 0xC3, CHR 0xA7] @ ''o'',
      ''Compra online'', ''Assinatura mensal'', ''Recarga'',
      ''Transfer'' @ [CHR 0xC3, CHR 0xAA] @ ''ncia'']"

subsection \<open>The environment: random source, fake data, clock, faults\<close>

text \<open>
  Everything the generator takes from outside is an oracle, indexed by the place of the
  call and the loop iteration: the raw integers behind the \<^verbatim>\<open>random\<close> module, the
  strings of \<^verbatim>\<open>Faker\<close>, the readings of \<^verbatim>\<open>datetime.now()\<close>, and whether a given
  \<^verbatim>\<open>cursor.execute\<close> call is hit by a fault of the storage layer.
\<close>

datatype draw =
    MerchantCategory nat
  | TxCustomer nat | TxMerchant nat | TxTier1 nat | TxTier2 nat | TxAmount nat
  | TxMethod nat | TxStatus nat | TxDaysAgo nat | TxHours nat | TxMinutes nat
  | TxSeconds nat | TxDescription nat
  | HvCustomer | HvMerchant
  | BurstCustomer | BurstMerchant nat | BurstAmount nat | BurstMethod nat

datatype fake_call = Name nat | Email nat | PhoneNumber nat | Cpf nat | Company nat | Cnpj nat

datatype clock_call = NowTransactions | NowHighValue | NowBurst

datatype site =
    Purge nat | Customers nat | Merchants nat | Transactions nat
  | HighValue | Burst nat | Statistics nat

record env =
  raw :: "draw \<Rightarrow> int"
  fake :: "fake_call \<Rightarrow> string"
  now :: "clock_call \<Rightarrow> int"
  faulty :: "site \<Rightarrow> bool"

subsection \<open>Library functions of Python\<close>

text \<open>\<^verbatim>\<open>random.random()\<close>: a 53-bit integer over \<open>2^53\<close>, in \<open>[0, 1)\<close>.\<close>

definition random_unit :: "int \<Rightarrow> rat" where
  "random_unit k = of_int (k mod 9007199254740992) / 9007199254740992"

definition uniform :: "rat \<Rightarrow> rat \<Rightarrow> int \<Rightarrow> rat" where
  "uniform a b k = a + (b - a) * random_unit k"

text \<open>\<^verbatim>\<open>random.choice\<close> raises on an empty sequence.\<close>

definition choice :: "'a list \<Rightarrow> int \<Rightarrow> error + 'a" where
  "choice xs k =
     (if xs = [] then Inl IndexError else Inr (xs ! nat (k mod int (length xs))))"

text \<open>
  \<^verbatim>\<open>random.choices(population, weights)[0]\<close>: the running sums of the weights are
  searched for \<open>random() * total\<close>, among all but the last of them, so the index found is
  within the population.
\<close>

fun accumulate :: "rat \<Rightarrow> rat list \<Rightarrow> rat list" where
  "accumulate s [] = []"
| "accumulate s (w # ws) = (s + w) # accumulate (s + w) ws"

definition bisect :: "rat list \<Rightarrow> rat \<Rightarrow> nat" where
  "bisect cs x = length (filter (\<lambda>c. c \<le> x) cs)"

definition choices :: "'a list \<Rightarrow> rat list \<Rightarrow> int \<Rightarrow> error + 'a" where
  "choices population weights k =
     (if length weights \<noteq> length population then Inl ValueError
      else if population = [] then Inl IndexError
      else let cum_weights = accumulate 0 weights;
               total = last cum_weights
           in Inr (population ! bisect (butlast cum_weights) (random_unit k * total)))"

text \<open>\<^verbatim>\<open>random.randint(a, b)\<close>, both ends included.\<close>

definition randint :: "int \<Rightarrow> int \<Rightarrow> int \<Rightarrow> int" where
  "randint a b k = a + k mod (b - a + 1)"

text \<open>\<^verbatim>\<open>round(x, 2)\<close>: two decimals, a tie goes to the even neighbour.\<close>

definition py_round2 :: "rat \<Rightarrow> rat" where
  "py_round2 x =
     (let y = x * 100; f = \<lfloor>y\<rfloor>; d = y - of_int f
      in of_int (if d < 1 / 2 then f else if d > 1 / 2 then f + 1
                 else if even f then f else f + 1) / 100)"

text \<open>\<^verbatim>\<open>timedelta(days, hours, minutes, seconds)\<close> in microseconds.\<close>

definition timedelta :: "int \<Rightarrow> int \<Rightarrow> int \<Rightarrow> int \<Rightarrow> int" where
  "timedelta d h m s = (((d * 24 + h) * 60 + m) * 60 + s) * 1000000"

subsection \<open>The connection and its statements\<close>

text \<open>
  A connection holds the content of the file and its own view of it, which includes the
  changes not yet committed. An exception leaves the connection as it is, so every step
  returns the connection together with its result.
\<close>

record conn =
  disk :: database
  txn :: database

definition connect :: "database \<Rightarrow> conn" where
  "connect db = \<lparr>disk = db, txn = db\<rparr>"

definition commit :: "conn \<Rightarrow> conn" where
  "commit c = c\<lparr>disk := txn c\<rparr>"

definition rollback :: "conn \<Rightarrow> conn" where
  "rollback c = c\<lparr>txn := disk c\<rparr>"

text \<open>Closing drops what was not committed; the file remains.\<close>

definition close :: "conn \<Rightarrow> database" where
  "close c = disk c"

text \<open>\<^verbatim>\<open>cursor.execute\<close>: the statement works on the connection's view; a statement that
  raises changes nothing.\<close>

definition execute ::
  "env \<Rightarrow> site \<Rightarrow> (database \<Rightarrow> error + 'a \<times> database) \<Rightarrow> conn \<Rightarrow> (error + 'a) \<times> conn" where
  "execute e s statement c =
     (if faulty e s then (Inl OperationalError, c)
      else case statement (txn c) of
             Inl err \<Rightarrow> (Inl err, c)
           | Inr (v, db') \<Rightarrow> (Inr v, c\<lparr>txn := db'\<rparr>))"

text \<open>Sequencing: an exception skips the rest.\<close>

definition and_then ::
  "(error + 'a) \<times> conn \<Rightarrow> ('a \<Rightarrow> conn \<Rightarrow> (error + 'b) \<times> conn) \<Rightarrow> (error + 'b) \<times> conn" where
  "and_then r f = (case r of (Inl err, c) \<Rightarrow> (Inl err, c) | (Inr v, c) \<Rightarrow> f v c)"

text \<open>An \<^verbatim>\<open>AUTOINCREMENT\<close> key is one more than the largest id ever used.\<close>

definition next_rowid :: "int \<Rightarrow> int list \<Rightarrow> int" where
  "next_rowid seq ids = fold max ids seq + 1"

definition delete_from_transactions :: "database \<Rightarrow> error + unit \<times> database" where
  "delete_from_transactions db = Inr ((), db\<lparr>transactions := []\<rparr>)"

definition delete_from_merchants :: "database \<Rightarrow> error + unit \<times> database" where
  "delete_from_merchants db = Inr ((), db\<lparr>merchants := []\<rparr>)"

definition delete_from_customers :: "database \<Rightarrow> error + unit \<times> database" where
  "delete_from_customers db = Inr ((), db\<lparr>customers := []\<rparr>)"

text \<open>\<^verbatim>\<open>email\<close> and \<^verbatim>\<open>document\<close> are \<^verbatim>\<open>UNIQUE\<close>. The statement returns
  \<^verbatim>\<open>cursor.lastrowid\<close>.\<close>

definition insert_customer ::
  "string \<Rightarrow> string \<Rightarrow> string \<Rightarrow> string \<Rightarrow> database \<Rightarrow> error + int \<times> database" where
  "insert_customer name email phone document db =
     (if email \<in> set (map c_email (customers db))
         \<or> document \<in> set (map c_document (customers db))
      then Inl IntegrityError
      else let rowid = next_rowid (seq_customers db) (map c_id (customers db))
           in Inr (rowid,
                db\<lparr>customers := customers db @
                      [\<lparr>c_id = rowid, c_name = name, c_email = email, c_phone = phone,
                        c_document = document\<rparr>],
                   seq_customers := rowid\<rparr>))"

definition insert_merchant ::
  "string \<Rightarrow> string \<Rightarrow> string \<Rightarrow> database \<Rightarrow> error + int \<times> database" where
  "insert_merchant name category document db =
     (if document \<in> set (map m_document (merchants db)) then Inl IntegrityError
      else let rowid = next_rowid (seq_merchants db) (map m_id (merchants db))
           in Inr (rowid,
                db\<lparr>merchants := merchants db @
                      [\<lparr>m_id = rowid, m_name = name, m_category = category,
                        m_document = document\<rparr>],
                   seq_merchants := rowid\<rparr>))"

text \<open>The foreign keys of \<^verbatim>\<open>transactions\<close> are declared but the engine does not enforce
  them unless asked to, and nothing asks: the statement cannot fail.\<close>

definition insert_transaction ::
  "int \<Rightarrow> int \<Rightarrow> rat \<Rightarrow> string \<Rightarrow> string \<Rightarrow> int \<Rightarrow> string \<Rightarrow> database
     \<Rightarrow> error + int \<times> database" where
  "insert_transaction customer_id merchant_id amount payment_method status transaction_date
       description db =
     (let rowid = next_rowid (seq_transactions db) (map t_id (transactions db))
      in Inr (rowid,
           db\<lparr>transactions := transactions db @
                 [\<lparr>t_id = rowid, t_customer_id = customer_id, t_merchant_id = merchant_id,
                   t_amount = amount, t_payment_method = payment_method, t_status = status,
                   t_date = transaction_date, t_description = description\<rparr>],
              seq_transactions := rowid\<rparr>))"

text \<open>A \<^verbatim>\<open>SELECT\<close> of \<^verbatim>\<open>print_statistics\<close>: it reads and changes nothing.\<close>

definition select_statistics :: "database \<Rightarrow> error + unit \<times> database" where
  "select_statistics db = Inr ((), db)"

subsection \<open>generate\_customers, generate\_merchants\<close>

text \<open>The loop over \<^verbatim>\<open>range(NUM_CUSTOMERS)\<close>; \<open>acc\<close> is the list \<^verbatim>\<open>customers\<close> of
  row ids. Only \<^verbatim>\<open>sqlite3.IntegrityError\<close> is caught.\<close>

fun customers_loop :: "env \<Rightarrow> nat list \<Rightarrow> int list \<Rightarrow> conn \<Rightarrow> (error + int list) \<times> conn" where
  "customers_loop e [] acc c = (Inr acc, c)"
| "customers_loop e (i # is) acc c =
     (case execute e (Customers i)
             (insert_customer (fake e (Name i)) (fake e (Email i)) (fake e (PhoneNumber i))
                (fake e (Cpf i))) c of
        (Inr rowid, c') \<Rightarrow> customers_loop e is (acc @ [rowid]) c'
      | (Inl err, c') \<Rightarrow>
          if err = IntegrityError then customers_loop e is acc c' else (Inl err, c'))"

definition generate_customers :: "env \<Rightarrow> config \<Rightarrow> conn \<Rightarrow> (error + int list) \<times> conn" where
  "generate_customers e cfg c = customers_loop e [0..<NUM_CUSTOMERS cfg] [] c"

fun merchants_loop :: "env \<Rightarrow> nat list \<Rightarrow> int list \<Rightarrow> conn \<Rightarrow> (error + int list) \<times> conn" where
  "merchants_loop e [] acc c = (Inr acc, c)"
| "merchants_loop e (i # is) acc c =
     (case choice CATEGORIES (raw e (MerchantCategory i)) of
        Inl err \<Rightarrow> (Inl err, c)
      | Inr category \<Rightarrow>
          (case execute e (Merchants i)
                  (insert_merchant (fake e (Company i)) category (fake e (Cnpj i))) c of
             (Inr rowid, c') \<Rightarrow> merchants_loop e is (acc @ [rowid]) c'
           | (Inl err, c') \<Rightarrow>
               if err = IntegrityError then merchants_loop e is acc c' else (Inl err, c')))"

definition generate_merchants :: "env \<Rightarrow> config \<Rightarrow> conn \<Rightarrow> (error + int list) \<times> conn" where
  "generate_merchants e cfg c = merchants_loop e [0..<NUM_MERCHANTS cfg] [] c"

subsection \<open>generate\_transactions\<close>

text \<open>The amount is drawn from one of three ranges; the second \<^verbatim>\<open>random()\<close> is drawn
  only when the first test fails.\<close>

definition draw_amount :: "env \<Rightarrow> nat \<Rightarrow> rat" where
  "draw_amount e i =
     (if random_unit (raw e (TxTier1 i)) < 7 / 10
      then py_round2 (uniform 10 200 (raw e (TxAmount i)))
      else if random_unit (raw e (TxTier2 i)) < 9 / 10
      then py_round2 (uniform 200 1000 (raw e (TxAmount i)))
      else py_round2 (uniform 1000 5000 (raw e (TxAmount i))))"

text \<open>\<^verbatim>\<open>int(random.triangular(0, 90, 0))\<close> is a whole number of days from 0 to 89; the
  oracle gives it directly.\<close>

definition draw_transaction_date :: "env \<Rightarrow> int \<Rightarrow> nat \<Rightarrow> int" where
  "draw_transaction_date e start_date i =
     start_date + timedelta (raw e (TxDaysAgo i) mod 90)
                    (randint 6 23 (raw e (TxHours i)))
                    (randint 0 59 (raw e (TxMinutes i)))
                    (randint 0 59 (raw e (TxSeconds i)))"

definition lift :: "error + 'a \<Rightarrow> conn \<Rightarrow> (error + 'a) \<times> conn" where
  "lift r c = (r, c)"

definition transaction_step ::
  "env \<Rightarrow> int \<Rightarrow> int list \<Rightarrow> int list \<Rightarrow> nat \<Rightarrow> conn \<Rightarrow> (error + int) \<times> conn" where
  "transaction_step e start_date customer_ids merchant_ids i c =
     and_then (lift (choice customer_ids (raw e (TxCustomer i))) c) (\<lambda>customer_id c.
     and_then (lift (choice merchant_ids (raw e (TxMerchant i))) c) (\<lambda>merchant_id c.
     and_then (lift (choices PAYMENT_METHODS METHOD_WEIGHTS (raw e (TxMethod i))) c)
       (\<lambda>payment_method c.
     and_then (lift (choices STATUSES STATUS_WEIGHTS (raw e (TxStatus i))) c) (\<lambda>status c.
     and_then (lift (choice descriptions (raw e (TxDescription i))) c) (\<lambda>description c.
       execute e (Transactions i)
         (insert_transaction customer_id merchant_id (draw_amount e i) payment_method status
            (draw_transaction_date e start_date i) description) c)))))"

fun transactions_loop ::
  "env \<Rightarrow> int \<Rightarrow> int list \<Rightarrow> int list \<Rightarrow> nat list \<Rightarrow> conn \<Rightarrow> (error + unit) \<times> conn" where
  "transactions_loop e start_date customer_ids merchant_ids [] c = (Inr (), c)"
| "transactions_loop e start_date customer_ids merchant_ids (i # is) c =
     and_then (transaction_step e start_date customer_ids merchant_ids i c)
       (\<lambda>rowid c'. transactions_loop e start_date customer_ids merchant_ids is c')"

definition generate_transactions ::
  "env \<Rightarrow> config \<Rightarrow> int list \<Rightarrow> int list \<Rightarrow> conn \<Rightarrow> (error + unit) \<times> conn" where
  "generate_transactions e cfg customer_ids merchant_ids c =
     (let start_date = now e NowTransactions - timedelta 90 0 0 0
      in transactions_loop e start_date customer_ids merchant_ids
           [0..<NUM_TRANSACTIONS cfg] c)"

subsection \<open>generate\_anomalies\<close>

definition burst_description :: string where
  "burst_description =
     ''Compra suspeita - m'' @ [CHR 0xC3, CHR 0xBA] @ ''ltiplas transa''
       @ [CHR 0xC3, CHR 0xA7, CHR 0xC3, CHR 0xB5] @ ''es''"

definition burst_step ::
  "env \<Rightarrow> int \<Rightarrow> int list \<Rightarrow> int \<Rightarrow> nat \<Rightarrow> conn \<Rightarrow> (error + int) \<times> conn" where
  "burst_step e customer_id merchant_ids base_time i c =
     and_then (lift (choice merchant_ids (raw e (BurstMerchant i))) c) (\<lambda>merchant_id c.
     and_then (lift (choice PAYMENT_METHODS (raw e (BurstMethod i))) c) (\<lambda>payment_method c.
       execute e (Burst i)
         (insert_transaction customer_id merchant_id
            (py_round2 (uniform 100 500 (raw e (BurstAmount i)))) payment_method ''approved''
            (base_time + timedelta 0 0 (int i * 2) 0) burst_description) c))"

fun burst_loop ::
  "env \<Rightarrow> int \<Rightarrow> int list \<Rightarrow> int \<Rightarrow> nat list \<Rightarrow> conn \<Rightarrow> (error + unit) \<times> conn" where
  "burst_loop e customer_id merchant_ids base_time [] c = (Inr (), c)"
| "burst_loop e customer_id merchant_ids base_time (i # is) c =
     and_then (burst_step e customer_id merchant_ids base_time i c)
       (\<lambda>rowid c'. burst_loop e customer_id merchant_ids base_time is c')"

definition generate_anomalies ::
  "env \<Rightarrow> int list \<Rightarrow> int list \<Rightarrow> conn \<Rightarrow> (error + unit) \<times> conn" where
  "generate_anomalies e customer_ids merchant_ids c =
     and_then (lift (choice customer_ids (raw e HvCustomer)) c) (\<lambda>hv_customer c.
     and_then (lift (choice merchant_ids (raw e HvMerchant)) c) (\<lambda>hv_merchant c.
     and_then (execute e HighValue
                 (insert_transaction hv_customer hv_merchant 25000 ''credit_card''
                    ''approved'' (now e NowHighValue - timedelta 0 2 0 0)
                    ''Compra de alto valor'') c) (\<lambda>rowid c.
     and_then (lift (choice customer_ids (raw e BurstCustomer)) c) (\<lambda>customer_id c.
       burst_loop e customer_id merchant_ids (now e NowBurst - timedelta 0 1 0 0)
         [0..<10] c))))"

subsection \<open>print\_statistics\<close>

text \<open>Five queries, none of which writes. The approved volume is formatted as a number,
  which raises when the sum is \<^verbatim>\<open>NULL\<close> (no approved transaction).\<close>

definition print_statistics :: "env \<Rightarrow> conn \<Rightarrow> (error + unit) \<times> conn" where
  "print_statistics e c =
     and_then (execute e (Statistics 0) select_statistics c) (\<lambda>_ c.
     and_then (execute e (Statistics 1) select_statistics c) (\<lambda>_ c.
     and_then (execute e (Statistics 2) select_statistics c) (\<lambda>_ c.
     and_then (execute e (Statistics 3) select_statistics c) (\<lambda>_ c.
     and_then (lift (case sql_sum (map t_amount
                            (filter (\<lambda>t. t_status t = ''approved'') (transactions (txn c)))) of
                       None \<Rightarrow> Inl TypeError | Some volume \<Rightarrow> Inr ()) c) (\<lambda>_ c.
     and_then (execute e (Statistics 4) select_statistics c) (\<lambda>_ c.
       execute e (Statistics 5) select_statistics c))))))"

subsection \<open>main\<close>

text \<open>The body of the \<^verbatim>\<open>try\<close> block, in its three parts: the old rows are deleted
  and the deletion is committed; the four generators run; their rows are committed and the
  statistics are printed.\<close>

definition purge :: "env \<Rightarrow> conn \<Rightarrow> (error + unit) \<times> conn" where
  "purge e c =
     and_then (execute e (Purge 0) delete_from_transactions c) (\<lambda>_ c.
     and_then (execute e (Purge 1) delete_from_merchants c) (\<lambda>_ c.
     and_then (execute e (Purge 2) delete_from_customers c) (\<lambda>_ c.
       (Inr (), commit c))))"

definition generate_all :: "env \<Rightarrow> config \<Rightarrow> conn \<Rightarrow> (error + unit) \<times> conn" where
  "generate_all e cfg c =
     and_then (generate_customers e cfg c) (\<lambda>customer_ids c.
     and_then (generate_merchants e cfg c) (\<lambda>merchant_ids c.
     and_then (generate_transactions e cfg customer_ids merchant_ids c) (\<lambda>_ c.
       generate_anomalies e customer_ids merchant_ids c)))"

definition main_body :: "env \<Rightarrow> config \<Rightarrow> conn \<Rightarrow> (error + unit) \<times> conn" where
  "main_body e cfg c =
     and_then (purge e c) (\<lambda>_ c.
     and_then (generate_all e cfg c) (\<lambda>_ c.
       print_statistics e (commit c)))"

text \<open>
  \<^verbatim>\<open>main\<close> opens its own connection to the provisioned file, runs the body, rolls back
  in the \<^verbatim>\<open>except\<close> branch and closes the connection in the \<^verbatim>\<open>finally\<close> branch. The
  result is what was raised, if anything, and the file afterwards.
\<close>

definition main :: "env \<Rightarrow> config \<Rightarrow> database \<Rightarrow> (error + unit) \<times> database" where
  "main e cfg db =
     (case main_body e cfg (connect db) of
        (Inl err, c) \<Rightarrow> (Inl err, close (rollback c))
      | (Inr u, c) \<Rightarrow> (Inr u, close c))"


section \<open>Reference aggregations and row properties\<close>





text \<open>What a generated transaction row has to satisfy, relative to the ids it may refer
  to; and the shape of the \<open>i\<close>-th row of the injected burst.\<close>

definition generated_from :: "int list \<Rightarrow> int list \<Rightarrow> transaction \<Rightarrow> bool" where
  "generated_from customer_ids merchant_ids t =
     (t_customer_id t \<in> set customer_ids \<and> t_merchant_id t \<in> set merchant_ids
      \<and> 0 < t_amount t \<and> t_status t \<in> set STATUSES
      \<and> t_payment_method t \<in> set PAYMENT_METHODS)"

definition burst_row :: "int \<Rightarrow> int \<Rightarrow> nat \<Rightarrow> transaction \<Rightarrow> bool" where
  "burst_row customer_id base_time i t =
     (t_customer_id t = customer_id \<and> t_status t = ''approved''
      \<and> t_date t = base_time + timedelta 0 0 (int i * 2) 0)"

text \<open>The store once the deletion of the old rows has been committed.\<close>

definition purged :: "database \<Rightarrow> database" where
  "purged db = db\<lparr>transactions := [], merchants := [], customers := []\<rparr>"

section \<open>Example inputs\<close>

text \<open>The store right after provisioning.\<close>

definition provisioned :: database where
  "provisioned =
     \<lparr>db_tables = [''customers'', ''merchants'', ''transactions''],
      db_indexes = [''idx_transaction_date'', ''idx_transaction_status'',
                    ''idx_transaction_method'', ''idx_customer_id'', ''idx_merchant_id''],
      db_views = [''daily_summary'', ''merchant_performance''],
      customers = [], merchants = [], transactions = [],
      seq_customers = 0, seq_merchants = 0, seq_transactions = 0\<rparr>"

text \<open>A small populated store: a declined transaction, an approved one below one cent and
  an approved one of high value.\<close>

definition sample_db :: database where
  "sample_db = provisioned
     \<lparr>customers :=
        [\<lparr>c_id = 1, c_name = ''Ana'', c_email = ''ana@example.com'', c_phone = ''555-0001'',
          c_document = ''111''\<rparr>,
         \<lparr>c_id = 2, c_name = ''Bia'', c_email = ''bia@example.com'', c_phone = ''555-0002'',
          c_document = ''112''\<rparr>],
      merchants :=
        [\<lparr>m_id = 1, m_name = ''Padaria Sol'', m_category = ''Padaria'', m_document = ''221''\<rparr>,
         \<lparr>m_id = 2, m_name = ''Livros'', m_category = ''Livraria'', m_document = ''222''\<rparr>],
      transactions :=
        [\<lparr>t_id = 1, t_customer_id = 1, t_merchant_id = 1, t_amount = 100,
          t_payment_method = ''pix'', t_status = ''declined'', t_date = 1700000000000000,
          t_description = ''Compra online''\<rparr>,
         \<lparr>t_id = 2, t_customer_id = 1, t_merchant_id = 1, t_amount = 1 / 1000,
          t_payment_method = ''pix'', t_status = ''approved'', t_date = 1700000060000000,
          t_description = ''Recarga''\<rparr>,
         \<lparr>t_id = 3, t_customer_id = 2, t_merchant_id = 2, t_amount = 20000,
          t_payment_method = ''credit_card'', t_status = ''approved'',
          t_date = 1700000120000000, t_description = ''Compra online''\<rparr>],
      seq_customers := 2, seq_merchants := 2, seq_transactions := 3\<rparr>"

text \<open>
  An environment for one run of the generator: every random draw is 0, the second customer
  repeats the first one's e-mail (and is skipped), and the clock reads ten minutes before
  the full hour one hour after the burst starts, so that the burst straddles two hour
  windows. \<open>failing_env\<close> is the same with a storage fault at the first bulk transaction.
\<close>

definition example_env :: env where
  "example_env =
     \<lparr>raw = (\<lambda>d. 0),
      fake = (\<lambda>call. case call of
                Name i \<Rightarrow> ''Ana'' | Email i \<Rightarrow> ''ana@example.com''
              | PhoneNumber i \<Rightarrow> ''555-0001'' | Cpf i \<Rightarrow> ''111''
              | Company i \<Rightarrow> ''Loja'' | Cnpj i \<Rightarrow> ''221''),
      now = (\<lambda>call. 1700005800000000),
      faulty = (\<lambda>s. False)\<rparr>"

definition failing_env :: env where
  "failing_env = example_env\<lparr>faulty := (\<lambda>s. s = Transactions 0)\<rparr>"

definition example_config :: config where
  "example_config = \<lparr>NUM_CUSTOMERS = 2, NUM_MERCHANTS = 1, NUM_TRANSACTIONS = 1\<rparr>"

text \<open>The connection's view during that run: after the bulk transaction, after the
  high-value transaction, and the store the run leaves behind.\<close>

definition after_bulk :: database where
  "after_bulk = provisioned
     \<lparr>customers :=
        [\<lparr>c_id = 1, c_name = ''Ana'', c_email = ''ana@example.com'', c_phone = ''555-0001'',
          c_document = ''111''\<rparr>],
      merchants :=
        [\<lparr>m_id = 1, m_name = ''Loja'', m_category = ''Supermercado'', m_document = ''221''\<rparr>],
      transactions :=
        [\<lparr>t_id = 1, t_customer_id = 1, t_merchant_id = 1, t_amount = 10,
          t_payment_method = ''pix'', t_status = ''approved'', t_date = 1692251400000000,
          t_description = ''Compra em estabelecimento''\<rparr>],
      seq_customers := 1, seq_merchants := 1, seq_transactions := 1\<rparr>"

definition after_high_value :: database where
  "after_high_value = after_bulk
     \<lparr>transactions := transactions after_bulk @
        [\<lparr>t_id = 2, t_customer_id = 1, t_merchant_id = 1, t_amount = 25000,
          t_payment_method = ''credit_card'', t_status = ''approved'',
          t_date = 1699998600000000, t_description = ''Compra de alto valor''\<rparr>],
      seq_transactions := 2\<rparr>"

definition generated_db :: database where
  "generated_db = provisioned
     \<lparr>customers :=
        [\<lparr>c_id = 1, c_name = ''Ana'', c_email = ''ana@example.com'', c_phone = ''555-0001'',
          c_document = ''111''\<rparr>],
      merchants :=
        [\<lparr>m_id = 1, m_name = ''Loja'', m_category = ''Supermercado'', m_document = ''221''\<rparr>],
      transactions :=
        \<lparr>t_id = 1, t_customer_id = 1, t_merchant_id = 1, t_amount = 10,
          t_payment_method = ''pix'', t_status = ''approved'', t_date = 1692251400000000,
          t_description = ''Compra em estabelecimento''\<rparr> #
        \<lparr>t_id = 2, t_customer_id = 1, t_merchant_id = 1, t_amount = 25000,
          t_payment_method = ''credit_card'', t_status = ''approved'',
          t_date = 1699998600000000, t_description = ''Compra de alto valor''\<rparr> #
        map (\<lambda>i. \<lparr>t_id = 3 + i, t_customer_id = 1, t_merchant_id = 1, t_amount = 100,
                   t_payment_method = ''pix'', t_status = ''approved'',
                   t_date = 1700002200000000 + 120000000 * i,
                   t_description = burst_description\<rparr>)
          [0, 1, 2, 3, 4, 5, 6, 7, 8, 9],
      seq_customers := 1, seq_merchants := 1, seq_transactions := 12\<rparr>"


section \<open>Facts about the SQL building blocks\<close>

lemma set_order_by_desc: "set (order_by_desc key rows) = set rows"
  by (simp add: order_by_desc_def)


lemma sorted_order_by_desc: "sorted_wrt (\<lambda>a b. a \<ge> b) (map key (order_by_desc key rows))"
proof -
  have "sorted_wrt (\<lambda>a b. b \<le> a) (rev (map key (sort_key key (rev rows))))"
    unfolding sorted_wrt_rev by (rule sorted_sort_key)
  then show ?thesis by (simp add: order_by_desc_def rev_map)
qed

lemma set_sql_limit: "set (sql_limit n xs) \<subseteq> set xs"
  by (auto simp: sql_limit_def dest: in_set_takeD)

lemma length_sql_limit: "0 \<le> n \<Longrightarrow> length (sql_limit n xs) \<le> nat n"
  by (simp add: sql_limit_def)

lemma sorted_sql_limit:
  "sorted_wrt P (map key xs) \<Longrightarrow> sorted_wrt P (map key (sql_limit n xs))"
  by (simp add: sql_limit_def take_map [symmetric] sorted_wrt_take)


lemma group_by_member:
  "g \<in> set (group_by key rows) \<Longrightarrow> \<exists>k \<in> set (map key rows). g = filter (\<lambda>r. key r = k) rows"
  by (auto simp: group_by_def)

lemma group_by_nonempty: "g \<in> set (group_by key rows) \<Longrightarrow> g \<noteq> []"
  by (auto simp: group_by_def filter_empty_conv)


lemma sql_round2_100: "sql_round2 100 = 100"
  by code_simp

lemma sum_approved_flag:
  "sum_list (map approved_flag ts)
   = of_nat (length (filter (\<lambda>t. t_status t = ''approved'') ts))"
  by (induction ts) (auto simp: approved_flag_def)

lemma approval_rate_all_approved:
  assumes "ts \<noteq> []" and "\<forall>t \<in> set ts. t_status t = ''approved''"
  shows "sql_round (sql_div (sql_mul 100 (sql_sum (map approved_flag ts))) (length ts))
         = Some 100"
proof -
  from assms(2) have "filter (\<lambda>t. t_status t = ''approved'') ts = ts"
    by (simp add: filter_id_conv)
  with assms(1) show ?thesis
    by (simp add: sql_round_def sql_div_def sql_mul_def sql_sum_def sum_approved_flag
        sql_round2_100)
qed



subsection \<open>Aggregating over the join of merchants and transactions\<close>







lemma top_merchants_approval_rate:
  assumes r: "r \<in> set (get_top_merchants db N)"
  shows "mr_approval_rate r = Some 100"
proof -
  let ?G = "group_by (\<lambda>(m, t). m_id m)
              (filter (\<lambda>(m, t). t_status t = ''approved'') (merchants_join db))"
  from r have "r \<in> set (concat (map top_merchants_group ?G))"
    using set_sql_limit [of N, THEN subsetD]
    by (fastforce simp: get_top_merchants_def set_order_by_desc)
  then obtain g where g: "g \<in> set ?G" and rg: "r \<in> set (top_merchants_group g)" by auto
  from g have appr: "\<forall>(m, t) \<in> set g. t_status t = ''approved''"
    by (auto dest!: group_by_member)
  from rg obtain m t g' where gg: "g = (m, t) # g'" by (cases g) auto
  from appr gg have "\<forall>x \<in> set (t # map snd g'). t_status x = ''approved''" by auto
  then have "sql_round (sql_div (sql_mul 100 (sql_sum (map approved_flag (t # map snd g'))))
                 (length (t # map snd g'))) = Some 100"
    by (intro approval_rate_all_approved) simp_all
  with rg gg show ?thesis by (simp add: Let_def)
qed


section \<open>Properties of the query layer\<close>

text \<open>
  C5. For every store and every threshold, the high-value anomaly query returns only
  transactions whose amount is strictly greater than the threshold, at most 50 of them,
  in descending order of amount.
\<close>

theorem high_value_query_rows:
  "(\<forall>r \<in> set (fst (get_anomalies db T F)). hv_amount r > T)
   \<and> length (fst (get_anomalies db T F)) \<le> 50
   \<and> sorted_wrt (\<lambda>a b. a \<ge> b) (map hv_amount (fst (get_anomalies db T F)))"
proof (intro conjI)
  show "\<forall>r \<in> set (fst (get_anomalies db T F)). hv_amount r > T"
    using set_sql_limit [of 50]
    by (fastforce simp: get_anomalies_def query_high_value_def set_order_by_desc
        high_value_select_def)
  show "length (fst (get_anomalies db T F)) \<le> 50"
    using length_sql_limit [of 50] by (simp add: get_anomalies_def query_high_value_def)
  show "sorted_wrt (\<lambda>a b. a \<ge> b) (map hv_amount (fst (get_anomalies db T F)))"
    by (simp add: get_anomalies_def query_high_value_def sorted_sql_limit
        sorted_order_by_desc)
qed

lemma sample_high_value:
  "fst (get_anomalies sample_db 10000 5) =
     [\<lparr>hv_id = 3, hv_transaction_date = 1700000120000000, hv_customer_name = ''Bia'',
       hv_merchant_name = ''Livros'', hv_amount = 20000, hv_payment_method = ''credit_card'',
       hv_status = ''approved'', hv_anomaly_type = ''high_value''\<rparr>]"
  by code_simp

theorem high_value_query_rows_witness:
  "length (fst (get_anomalies sample_db 10000 5)) = 1
   \<and> hv_amount (fst (get_anomalies sample_db 10000 5) ! 0) > 10000
   \<and> length (fst (get_anomalies sample_db 10000 5)) \<le> 50
   \<and> sorted_wrt (\<lambda>a b. a \<ge> b) (map hv_amount (fst (get_anomalies sample_db 10000 5)))"
  using high_value_query_rows [of sample_db 10000 5] unfolding sample_high_value by simp

text \<open>
  C9. In the filtered transaction listing, the sentinel \<^verbatim>\<open>'Todos'\<close> as payment method
  (or as status) gives exactly the result of leaving that filter out: it switches the
  predicate off and is not searched for as a value.
\<close>

theorem todos_is_no_filter:
  "get_transactions_filtered db start_date end_date (Some ''Todos'') status n
     = get_transactions_filtered db start_date end_date None status n
   \<and> get_transactions_filtered db start_date end_date payment_method (Some ''Todos'') n
     = get_transactions_filtered db start_date end_date payment_method None n"
proof -
  have a: "listing_where start_date end_date (Some ''Todos'') status
           = listing_where start_date end_date None status"
    by (rule ext) (simp add: listing_where_def text_filter_def)
  have b: "listing_where start_date end_date payment_method (Some ''Todos'')
           = listing_where start_date end_date payment_method None"
    by (rule ext) (simp add: listing_where_def text_filter_def)
  show ?thesis by (simp add: get_transactions_filtered_def a b)
qed

lemma sample_listing_length:
  "length (get_transactions_filtered sample_db None None None None 100) = 3"
  by code_simp

theorem todos_is_no_filter_witness:
  "length (get_transactions_filtered sample_db None None (Some ''Todos'') None 100) = 3
   \<and> length (get_transactions_filtered sample_db None None None (Some ''Todos'') 100) = 3"
  using todos_is_no_filter [of sample_db None None None 100 None]
  by (simp add: sample_listing_length)

text \<open>
  C10. Every row of the top-merchants result has approval rate exactly 100: the rows are
  restricted to approved transactions before they are grouped, so the rate is computed
  over approved transactions only.
\<close>

theorem top_merchants_approval_rate_is_100:
  "\<forall>r \<in> set (get_top_merchants db N). mr_approval_rate r = Some 100"
  using top_merchants_approval_rate by blast

lemma sample_top_merchants:
  "get_top_merchants sample_db 10 =
     [\<lparr>mr_name = ''Livros'', mr_category = ''Livraria'', mr_total_transactions = 1,
       mr_total_volume = Some 20000, mr_avg_ticket = Some 20000,
       mr_approval_rate = Some 100\<rparr>,
      \<lparr>mr_name = ''Padaria Sol'', mr_category = ''Padaria'', mr_total_transactions = 1,
       mr_total_volume = Some 0, mr_avg_ticket = Some 0, mr_approval_rate = Some 100\<rparr>]"
  by code_simp

theorem top_merchants_approval_rate_is_100_witness:
  "length (get_top_merchants sample_db 10) = 2
   \<and> mr_approval_rate (get_top_merchants sample_db 10 ! 0) = Some 100
   \<and> mr_approval_rate (get_top_merchants sample_db 10 ! 1) = Some 100"
  using top_merchants_approval_rate_is_100 [of sample_db 10]
  unfolding sample_top_merchants by simp



















text \<open>
  C8. Running the provisioner from any starting state (no file, or a file with any
  content) succeeds and leaves the same store: exactly three tables, five indexes and two
  views, no name twice, every table empty. Running it a second time gives the same result
  as running it once.
\<close>

theorem provisioning_is_a_reset:
  "fst (create_database fs) = Inr ()
   \<and> snd (create_database fs) = Some provisioned
   \<and> create_database (snd (create_database fs)) = create_database fs
   \<and> db_tables provisioned = [''customers'', ''merchants'', ''transactions'']
   \<and> db_indexes provisioned =
       [''idx_transaction_date'', ''idx_transaction_status'', ''idx_transaction_method'',
        ''idx_customer_id'', ''idx_merchant_id'']
   \<and> db_views provisioned = [''daily_summary'', ''merchant_performance'']
   \<and> distinct (db_tables provisioned @ db_views provisioned)
   \<and> distinct (db_indexes provisioned)
   \<and> customers provisioned = [] \<and> merchants provisioned = []
   \<and> transactions provisioned = []"
proof -
  have run: "create_database fs' = (Inr (), Some provisioned)" for fs'
    by (cases fs')
      (simp_all add: create_database_def schema_statements_def empty_database_def
        provisioned_def)
  show ?thesis unfolding run by (simp add: provisioned_def)
qed

theorem provisioning_is_a_reset_witness:
  "create_database (Some sample_db) = (Inr (), Some provisioned)
   \<and> create_database (snd (create_database (Some sample_db))) = (Inr (), Some provisioned)
   \<and> create_database None = (Inr (), Some provisioned)"
  using provisioning_is_a_reset [of "Some sample_db"] provisioning_is_a_reset [of None]
  by (metis prod.collapse)

section \<open>Facts about the generator\<close>

subsection \<open>Sequencing and statements\<close>

lemma and_then_simps:
  "and_then (Inl err, c) f = (Inl err, c)"
  "and_then (Inr v, c) f = f v c"
  by (simp_all add: and_then_def)

lemma and_then_lift:
  "and_then (lift r c) f = (case r of Inl err \<Rightarrow> (Inl err, c) | Inr v \<Rightarrow> f v c)"
  by (simp add: lift_def and_then_def split: sum.splits)

lemma and_then_Inr:
  assumes "and_then r f = (Inr v, c')"
  obtains u c1 where "r = (Inr u, c1)" "f u c1 = (Inr v, c')"
  using assms by (auto simp: and_then_def split: prod.splits sum.splits)

lemma and_then_disk:
  assumes "disk (snd r) = d" "\<And>u c1. disk c1 = d \<Longrightarrow> disk (snd (f u c1)) = d"
  shows "disk (snd (and_then r f)) = d"
  using assms by (auto simp: and_then_def split: prod.splits sum.splits)

lemma execute_disk: "disk (snd (execute e s stmt c)) = disk c"
  by (auto simp: execute_def split: sum.splits)

lemma execute_Inr:
  assumes "execute e s stmt c = (Inr v, c')"
  shows "\<not> faulty e s" "\<exists>db'. stmt (txn c) = Inr (v, db') \<and> c' = c\<lparr>txn := db'\<rparr>"
  using assms by (auto simp: execute_def split: sum.splits if_splits)

lemma execute_Inl: "execute e s stmt c = (Inl err, c') \<Longrightarrow> c' = c"
  by (auto simp: execute_def split: sum.splits if_splits)

lemma execute_insert_transaction:
  assumes "execute e s (insert_transaction a b am pm st d de) c = (Inr rid, c')"
  shows "customers (txn c') = customers (txn c)"
    and "merchants (txn c') = merchants (txn c)"
    and "\<exists>t. transactions (txn c') = transactions (txn c) @ [t] \<and> t_customer_id t = a
           \<and> t_merchant_id t = b \<and> t_amount t = am \<and> t_payment_method t = pm
           \<and> t_status t = st \<and> t_date t = d"
  using execute_Inr(2) [OF assms] by (auto simp: insert_transaction_def Let_def)

lemma execute_insert_customer:
  assumes "execute e s (insert_customer n em ph d) c = (Inr rid, c')"
  shows "merchants (txn c') = merchants (txn c)"
    and "transactions (txn c') = transactions (txn c)"
    and "c_id ` set (customers (txn c')) = insert rid (c_id ` set (customers (txn c)))"
  using execute_Inr(2) [OF assms]
  by (auto simp: insert_customer_def Let_def split: if_splits)

lemma execute_insert_merchant:
  assumes "execute e s (insert_merchant n cat d) c = (Inr rid, c')"
  shows "customers (txn c') = customers (txn c)"
    and "transactions (txn c') = transactions (txn c)"
    and "m_id ` set (merchants (txn c')) = insert rid (m_id ` set (merchants (txn c)))"
  using execute_Inr(2) [OF assms]
  by (auto simp: insert_merchant_def Let_def split: if_splits)

subsection \<open>The library functions\<close>

lemma choice_Inr:
  assumes "choice xs k = Inr x"
  shows "x \<in> set xs"
proof -
  from assms have ne: "xs \<noteq> []" and x: "x = xs ! nat (k mod int (length xs))"
    by (auto simp: choice_def split: if_splits)
  from ne have pos: "0 < int (length xs)" by simp
  then have "k mod int (length xs) < int (length xs)" by (rule pos_mod_bound)
  moreover from pos have "0 \<le> k mod int (length xs)" by simp
  ultimately have "nat (k mod int (length xs)) < length xs" by linarith
  then show ?thesis unfolding x by (rule nth_mem)
qed

lemma length_accumulate: "length (accumulate s ws) = length ws"
  by (induction ws arbitrary: s) auto

lemma choices_Inr:
  assumes "choices population weights k = Inr x"
  shows "x \<in> set population"
proof -
  from assms have len: "length weights = length population" and ne: "population \<noteq> []"
    by (auto simp: choices_def split: if_splits)
  let ?cum = "accumulate 0 weights"
  let ?idx = "bisect (butlast ?cum) (random_unit k * last ?cum)"
  have "?idx \<le> length (butlast ?cum)" unfolding bisect_def by (rule length_filter_le)
  also have "\<dots> = length population - 1" by (simp add: length_accumulate len)
  also have "\<dots> < length population" using ne by simp
  finally have "population ! ?idx \<in> set population" by simp
  moreover from assms len ne have "x = population ! ?idx"
    by (simp add: choices_def Let_def)
  ultimately show ?thesis by simp
qed

lemma random_unit_nonneg: "0 \<le> random_unit k"
  by (simp add: random_unit_def)

lemma uniform_ge: "a \<le> b \<Longrightarrow> a \<le> uniform a b k"
  by (simp add: uniform_def random_unit_nonneg)

lemma py_round2_ge:
  assumes "of_int n / 100 \<le> x"
  shows "of_int n / 100 \<le> py_round2 x"
proof -
  from assms have "of_int n \<le> x * 100" by simp
  then have f: "n \<le> \<lfloor>x * 100\<rfloor>" by (simp add: le_floor_iff)
  have "of_int \<lfloor>x * 100\<rfloor> / 100 \<le> py_round2 x"
    by (simp add: py_round2_def Let_def divide_le_cancel)
  moreover have "(of_int n :: rat) / 100 \<le> of_int \<lfloor>x * 100\<rfloor> / 100"
    using f by (simp add: divide_le_cancel)
  ultimately show ?thesis by linarith
qed

lemma py_round2_pos: "1 \<le> x \<Longrightarrow> 0 < py_round2 x"
  using py_round2_ge [of 100 x] by simp

lemma draw_amount_pos: "0 < draw_amount e i"
  unfolding draw_amount_def
  using uniform_ge [of 10 200] uniform_ge [of 200 1000] uniform_ge [of 1000 5000]
  by (auto intro!: py_round2_pos
      intro: order_trans [of 1 10] order_trans [of 1 200] order_trans [of 1 1000])

lemma burst_amount_pos: "0 < py_round2 (uniform 100 500 k)"
  using uniform_ge [of 100 500 k] by (intro py_round2_pos) simp

lemma approved_in_STATUSES: "''approved'' \<in> set STATUSES"
  by (simp add: STATUSES_def)

subsection \<open>No generator writes to the file\<close>

lemma customers_loop_disk: "disk (snd (customers_loop e is acc c)) = disk c"
proof (induction "is" arbitrary: acc c)
  case Nil
  show ?case by simp
next
  case (Cons i "is")
  let ?x = "execute e (Customers i)
             (insert_customer (fake e (Name i)) (fake e (Email i)) (fake e (PhoneNumber i))
                (fake e (Cpf i))) c"
  obtain r c' where x: "?x = (r, c')" by (cases ?x)
  have d: "disk c' = disk c" using execute_disk [of e "Customers i" _ c] x by (metis snd_conv)
  show ?case using x d Cons.IH by (cases r) auto
qed

lemma merchants_loop_disk: "disk (snd (merchants_loop e is acc c)) = disk c"
proof (induction "is" arbitrary: acc c)
  case Nil
  show ?case by simp
next
  case (Cons i "is")
  show ?case
  proof (cases "choice CATEGORIES (raw e (MerchantCategory i))")
    case (Inl err)
    then show ?thesis by simp
  next
    case (Inr category)
    let ?x = "execute e (Merchants i)
                (insert_merchant (fake e (Company i)) category (fake e (Cnpj i))) c"
    obtain r c' where x: "?x = (r, c')" by (cases ?x)
    have d: "disk c' = disk c"
      using execute_disk [of e "Merchants i" _ c] x by (metis snd_conv)
    show ?thesis using Inr x d Cons.IH by (cases r) auto
  qed
qed

lemma transaction_step_disk:
  "disk (snd (transaction_step e start_date cids mids i c)) = disk c"
  unfolding transaction_step_def
  by (intro and_then_disk) (simp_all add: execute_disk lift_def)

lemma transactions_loop_disk:
  "disk (snd (transactions_loop e start_date cids mids is c)) = disk c"
proof (induction "is" arbitrary: c)
  case Nil
  show ?case by simp
next
  case (Cons i "is")
  show ?case using Cons.IH by (simp add: and_then_disk transaction_step_disk)
qed

lemma burst_step_disk: "disk (snd (burst_step e cid mids base i c)) = disk c"
  unfolding burst_step_def
  by (intro and_then_disk) (simp_all add: execute_disk lift_def)

lemma burst_loop_disk: "disk (snd (burst_loop e cid mids base is c)) = disk c"
proof (induction "is" arbitrary: c)
  case Nil
  show ?case by simp
next
  case (Cons i "is")
  show ?case using Cons.IH by (simp add: and_then_disk burst_step_disk)
qed

lemma generate_anomalies_disk: "disk (snd (generate_anomalies e cids mids c)) = disk c"
  unfolding generate_anomalies_def
  by (intro and_then_disk) (simp_all add: execute_disk burst_loop_disk lift_def)

lemma generate_all_disk: "disk (snd (generate_all e cfg c)) = disk c"
  unfolding generate_all_def
  by (intro and_then_disk)
    (simp_all add: generate_customers_def generate_merchants_def generate_transactions_def
      Let_def customers_loop_disk merchants_loop_disk transactions_loop_disk
      generate_anomalies_disk)


subsection \<open>What a successful generator has written\<close>

lemma customers_loop_Inr:
  assumes "customers_loop e is acc c = (Inr ids, c')"
    and "set acc \<subseteq> c_id ` set (customers (txn c))"
  shows "set ids \<subseteq> c_id ` set (customers (txn c')) \<and> merchants (txn c') = merchants (txn c)
    \<and> transactions (txn c') = transactions (txn c)"
  using assms
proof (induction "is" arbitrary: acc c)
  case Nil
  then show ?case by simp
next
  case (Cons i "is")
  let ?x = "execute e (Customers i)
             (insert_customer (fake e (Name i)) (fake e (Email i)) (fake e (PhoneNumber i))
                (fake e (Cpf i))) c"
  obtain r c1 where x: "?x = (r, c1)" by (cases ?x)
  show ?case
  proof (cases r)
    case (Inr rid)
    with x Cons.prems(1) have l: "customers_loop e is (acc @ [rid]) c1 = (Inr ids, c')" by simp
    note X = execute_insert_customer [OF x [unfolded Inr]]
    have "set (acc @ [rid]) \<subseteq> c_id ` set (customers (txn c1))"
      using Cons.prems(2) X(3) by auto
    from Cons.IH [OF l this] show ?thesis using X(1,2) by simp
  next
    case (Inl err)
    with x Cons.prems(1) have l: "customers_loop e is acc c1 = (Inr ids, c')"
      by (auto split: if_splits)
    have "c1 = c" using x Inl execute_Inl by blast
    with Cons.IH [OF l] Cons.prems(2) show ?thesis by simp
  qed
qed

lemma merchants_loop_Inr:
  assumes "merchants_loop e is acc c = (Inr ids, c')"
    and "set acc \<subseteq> m_id ` set (merchants (txn c))"
  shows "set ids \<subseteq> m_id ` set (merchants (txn c')) \<and> customers (txn c') = customers (txn c)
    \<and> transactions (txn c') = transactions (txn c)"
  using assms
proof (induction "is" arbitrary: acc c)
  case Nil
  then show ?case by simp
next
  case (Cons i "is")
  from Cons.prems(1) obtain category where
    cat: "choice CATEGORIES (raw e (MerchantCategory i)) = Inr category"
    by (cases "choice CATEGORIES (raw e (MerchantCategory i))") auto
  let ?x = "execute e (Merchants i)
              (insert_merchant (fake e (Company i)) category (fake e (Cnpj i))) c"
  obtain r c1 where x: "?x = (r, c1)" by (cases ?x)
  show ?case
  proof (cases r)
    case (Inr rid)
    with x cat Cons.prems(1) have l: "merchants_loop e is (acc @ [rid]) c1 = (Inr ids, c')"
      by simp
    note X = execute_insert_merchant [OF x [unfolded Inr]]
    have "set (acc @ [rid]) \<subseteq> m_id ` set (merchants (txn c1))"
      using Cons.prems(2) X(3) by auto
    from Cons.IH [OF l this] show ?thesis using X(1,2) by simp
  next
    case (Inl err)
    with x cat Cons.prems(1) have l: "merchants_loop e is acc c1 = (Inr ids, c')"
      by (auto split: if_splits)
    have "c1 = c" using x Inl execute_Inl by blast
    with Cons.IH [OF l] Cons.prems(2) show ?thesis by simp
  qed
qed

lemma transaction_step_Inr:
  assumes "transaction_step e sd cids mids i c = (Inr rid, c')"
  shows "customers (txn c') = customers (txn c)"
    and "merchants (txn c') = merchants (txn c)"
    and "\<exists>t. transactions (txn c') = transactions (txn c) @ [t] \<and> generated_from cids mids t"
proof -
  from assms obtain cu me pm st de where
    cu: "choice cids (raw e (TxCustomer i)) = Inr cu" and
    me: "choice mids (raw e (TxMerchant i)) = Inr me" and
    pm: "choices PAYMENT_METHODS METHOD_WEIGHTS (raw e (TxMethod i)) = Inr pm" and
    st: "choices STATUSES STATUS_WEIGHTS (raw e (TxStatus i)) = Inr st" and
    ex: "execute e (Transactions i)
           (insert_transaction cu me (draw_amount e i) pm st (draw_transaction_date e sd i) de) c
         = (Inr rid, c')"
    unfolding transaction_step_def and_then_lift by (auto split: sum.splits)
  note X = execute_insert_transaction [OF ex]
  show "customers (txn c') = customers (txn c)" by (rule X(1))
  show "merchants (txn c') = merchants (txn c)" by (rule X(2))
  from X(3) obtain t where t: "transactions (txn c') = transactions (txn c) @ [t]"
    "t_customer_id t = cu" "t_merchant_id t = me" "t_amount t = draw_amount e i"
    "t_payment_method t = pm" "t_status t = st" by blast
  have "generated_from cids mids t"
    unfolding generated_from_def t
    using choice_Inr [OF cu] choice_Inr [OF me] choices_Inr [OF pm] choices_Inr [OF st]
      draw_amount_pos [of e i] by simp
  with t(1) show "\<exists>t. transactions (txn c') = transactions (txn c) @ [t]
      \<and> generated_from cids mids t"
    by blast
qed

lemma transactions_loop_Inr:
  assumes "transactions_loop e sd cids mids is c = (Inr u, c')"
  shows "customers (txn c') = customers (txn c) \<and> merchants (txn c') = merchants (txn c)
    \<and> (\<exists>new. transactions (txn c') = transactions (txn c) @ new
            \<and> (\<forall>t \<in> set new. generated_from cids mids t))"
  using assms
proof (induction "is" arbitrary: c)
  case Nil
  then show ?case by simp
next
  case (Cons i "is")
  from Cons.prems obtain rid c1 where
    s: "transaction_step e sd cids mids i c = (Inr rid, c1)" and
    r: "transactions_loop e sd cids mids is c1 = (Inr u, c')"
    by (auto elim!: and_then_Inr)
  note S = transaction_step_Inr [OF s]
  from S(3) obtain t where t: "transactions (txn c1) = transactions (txn c) @ [t]"
    "generated_from cids mids t" by blast
  from Cons.IH [OF r] obtain new where
    n: "customers (txn c') = customers (txn c1)" "merchants (txn c') = merchants (txn c1)"
      "transactions (txn c') = transactions (txn c1) @ new"
      "\<forall>t \<in> set new. generated_from cids mids t" by blast
  have "transactions (txn c') = transactions (txn c) @ (t # new)" using n(3) t(1) by simp
  moreover have "\<forall>x \<in> set (t # new). generated_from cids mids x" using n(4) t(2) by simp
  ultimately show ?case using n(1,2) S(1,2) by metis
qed

lemma burst_step_Inr:
  assumes "burst_step e cid mids base i c = (Inr rid, c')"
  shows "customers (txn c') = customers (txn c)"
    and "merchants (txn c') = merchants (txn c)"
    and "\<exists>t. transactions (txn c') = transactions (txn c) @ [t]
           \<and> generated_from [cid] mids t \<and> burst_row cid base i t"
proof -
  from assms obtain me pm where
    me: "choice mids (raw e (BurstMerchant i)) = Inr me" and
    pm: "choice PAYMENT_METHODS (raw e (BurstMethod i)) = Inr pm" and
    ex: "execute e (Burst i)
           (insert_transaction cid me (py_round2 (uniform 100 500 (raw e (BurstAmount i)))) pm
              ''approved'' (base + timedelta 0 0 (int i * 2) 0) burst_description) c
         = (Inr rid, c')"
    unfolding burst_step_def and_then_lift by (auto split: sum.splits)
  note X = execute_insert_transaction [OF ex]
  show "customers (txn c') = customers (txn c)" by (rule X(1))
  show "merchants (txn c') = merchants (txn c)" by (rule X(2))
  from X(3) obtain t where t: "transactions (txn c') = transactions (txn c) @ [t]"
    "t_customer_id t = cid" "t_merchant_id t = me"
    "t_amount t = py_round2 (uniform 100 500 (raw e (BurstAmount i)))"
    "t_payment_method t = pm" "t_status t = ''approved''"
    "t_date t = base + timedelta 0 0 (int i * 2) 0" by blast
  have "generated_from [cid] mids t"
    unfolding generated_from_def t
    using choice_Inr [OF me] choice_Inr [OF pm] burst_amount_pos approved_in_STATUSES by simp
  moreover have "burst_row cid base i t" unfolding burst_row_def using t by simp
  ultimately show "\<exists>t. transactions (txn c') = transactions (txn c) @ [t]
           \<and> generated_from [cid] mids t \<and> burst_row cid base i t" using t(1) by blast
qed

lemma burst_loop_Inr:
  assumes "burst_loop e cid mids base is c = (Inr u, c')"
  shows "customers (txn c') = customers (txn c) \<and> merchants (txn c') = merchants (txn c)
    \<and> (\<exists>rows. transactions (txn c') = transactions (txn c) @ rows
            \<and> (\<forall>t \<in> set rows. generated_from [cid] mids t)
            \<and> list_all2 (burst_row cid base) is rows)"
  using assms
proof (induction "is" arbitrary: c)
  case Nil
  then show ?case by simp
next
  case (Cons i "is")
  from Cons.prems obtain rid c1 where
    s: "burst_step e cid mids base i c = (Inr rid, c1)" and
    r: "burst_loop e cid mids base is c1 = (Inr u, c')"
    by (auto elim!: and_then_Inr)
  note S = burst_step_Inr [OF s]
  from S(3) obtain t where t: "transactions (txn c1) = transactions (txn c) @ [t]"
    "generated_from [cid] mids t" "burst_row cid base i t" by blast
  from Cons.IH [OF r] obtain rows where
    n: "customers (txn c') = customers (txn c1)" "merchants (txn c') = merchants (txn c1)"
      "transactions (txn c') = transactions (txn c1) @ rows"
      "\<forall>t \<in> set rows. generated_from [cid] mids t"
      "list_all2 (burst_row cid base) is rows" by blast
  have "transactions (txn c') = transactions (txn c) @ (t # rows)" using n(3) t(1) by simp
  moreover have "\<forall>x \<in> set (t # rows). generated_from [cid] mids x" using n(4) t(2) by simp
  moreover have "list_all2 (burst_row cid base) (i # is) (t # rows)" using n(5) t(3) by simp
  ultimately show ?case using n(1,2) S(1,2) by metis
qed

lemma generated_from_mono:
  "generated_from [cid] mids t \<Longrightarrow> cid \<in> set cids \<Longrightarrow> generated_from cids mids t"
  by (simp add: generated_from_def)

lemma generate_anomalies_Inr:
  assumes "generate_anomalies e cids mids c = (Inr u, c')"
  shows "customers (txn c') = customers (txn c) \<and> merchants (txn c') = merchants (txn c)
    \<and> (\<exists>hv cid rows. transactions (txn c') = transactions (txn c) @ hv # rows
            \<and> generated_from cids mids hv \<and> t_amount hv = 25000
            \<and> t_status hv = ''approved''
            \<and> (\<forall>t \<in> set rows. generated_from cids mids t)
            \<and> cid \<in> set cids
            \<and> list_all2 (burst_row cid (now e NowBurst - timedelta 0 1 0 0)) [0..<10] rows)"
proof -
  from assms obtain hc hm rid c1 cid where
    hc: "choice cids (raw e HvCustomer) = Inr hc" and
    hm: "choice mids (raw e HvMerchant) = Inr hm" and
    ex: "execute e HighValue
           (insert_transaction hc hm 25000 ''credit_card'' ''approved''
              (now e NowHighValue - timedelta 0 2 0 0) ''Compra de alto valor'') c
         = (Inr rid, c1)" and
    bc: "choice cids (raw e BurstCustomer) = Inr cid" and
    bl: "burst_loop e cid mids (now e NowBurst - timedelta 0 1 0 0) [0..<10] c1 = (Inr u, c')"
    unfolding generate_anomalies_def and_then_lift
    by (auto split: sum.splits elim!: and_then_Inr)
  note X = execute_insert_transaction [OF ex]
  from X(3) obtain hv where hv: "transactions (txn c1) = transactions (txn c) @ [hv]"
    "t_customer_id hv = hc" "t_merchant_id hv = hm" "t_amount hv = 25000"
    "t_payment_method hv = ''credit_card''" "t_status hv = ''approved''" by blast
  have g: "generated_from cids mids hv"
    unfolding generated_from_def hv
    using choice_Inr [OF hc] choice_Inr [OF hm] approved_in_STATUSES
    by (simp add: PAYMENT_METHODS_def)
  from burst_loop_Inr [OF bl] obtain rows where
    n: "customers (txn c') = customers (txn c1)" "merchants (txn c') = merchants (txn c1)"
      "transactions (txn c') = transactions (txn c1) @ rows"
      "\<forall>t \<in> set rows. generated_from [cid] mids t"
      "list_all2 (burst_row cid (now e NowBurst - timedelta 0 1 0 0)) [0..<10] rows" by blast
  have 1: "transactions (txn c') = transactions (txn c) @ hv # rows" using n(3) hv(1) by simp
  have 2: "\<forall>t \<in> set rows. generated_from cids mids t"
    using n(4) choice_Inr [OF bc] by (blast intro: generated_from_mono)
  show ?thesis using 1 2 g hv(4,6) choice_Inr [OF bc] n(1,2,5) X(1,2) by metis
qed

text \<open>The four generators together, started on empty tables.\<close>

lemma generate_all_Inr:
  assumes ok: "generate_all e cfg c = (Inr u, c')"
    and empty: "customers (txn c) = []" "merchants (txn c) = []" "transactions (txn c) = []"
  shows "\<exists>cids mids hv cid rows bulk.
           set cids \<subseteq> c_id ` set (customers (txn c'))
           \<and> set mids \<subseteq> m_id ` set (merchants (txn c'))
           \<and> transactions (txn c') = bulk @ hv # rows
           \<and> (\<forall>t \<in> set (transactions (txn c')). generated_from cids mids t)
           \<and> t_amount hv = 25000 \<and> t_status hv = ''approved'' \<and> cid \<in> set cids
           \<and> list_all2 (burst_row cid (now e NowBurst - timedelta 0 1 0 0)) [0..<10] rows"
proof -
  from ok obtain cids c1 mids c2 u3 c3 where
    gc: "generate_customers e cfg c = (Inr cids, c1)" and
    gm: "generate_merchants e cfg c1 = (Inr mids, c2)" and
    gt: "generate_transactions e cfg cids mids c2 = (Inr u3, c3)" and
    ga: "generate_anomalies e cids mids c3 = (Inr u, c')"
    unfolding generate_all_def by (auto elim!: and_then_Inr)
  from customers_loop_Inr [OF gc [unfolded generate_customers_def]] have
    C: "set cids \<subseteq> c_id ` set (customers (txn c1))" "merchants (txn c1) = merchants (txn c)"
      "transactions (txn c1) = transactions (txn c)" by simp_all
  from merchants_loop_Inr [OF gm [unfolded generate_merchants_def]] have
    M: "set mids \<subseteq> m_id ` set (merchants (txn c2))" "customers (txn c2) = customers (txn c1)"
      "transactions (txn c2) = transactions (txn c1)" by simp_all
  from transactions_loop_Inr [OF gt [unfolded generate_transactions_def Let_def]]
  obtain bulk where
    T: "customers (txn c3) = customers (txn c2)" "merchants (txn c3) = merchants (txn c2)"
      "transactions (txn c3) = transactions (txn c2) @ bulk"
      "\<forall>t \<in> set bulk. generated_from cids mids t" by blast
  from generate_anomalies_Inr [OF ga] obtain hv cid rows where
    A: "customers (txn c') = customers (txn c3)" "merchants (txn c') = merchants (txn c3)"
      "transactions (txn c') = transactions (txn c3) @ hv # rows"
      "generated_from cids mids hv" "t_amount hv = 25000" "t_status hv = ''approved''"
      "\<forall>t \<in> set rows. generated_from cids mids t" "cid \<in> set cids"
      "list_all2 (burst_row cid (now e NowBurst - timedelta 0 1 0 0)) [0..<10] rows" by blast
  have ts: "transactions (txn c') = bulk @ hv # rows"
    using A(3) T(3) M(3) C(3) empty(3) by simp
  have "set cids \<subseteq> c_id ` set (customers (txn c'))" using C(1) M(2) T(1) A(1) by simp
  moreover have "set mids \<subseteq> m_id ` set (merchants (txn c'))" using M(1) T(2) A(2) by simp
  moreover have "\<forall>t \<in> set (transactions (txn c')). generated_from cids mids t"
    unfolding ts using T(4) A(4,7) by auto
  ultimately show ?thesis using ts A(5,6,8,9) by blast
qed


subsection \<open>The parts of main: purge, generation, statistics\<close>

lemma purge_ok:
  assumes "\<not> faulty e (Purge 0)" "\<not> faulty e (Purge 1)" "\<not> faulty e (Purge 2)"
  shows "purge e (connect db) = (Inr (), connect (purged db))"
  using assms
  by (simp add: purge_def execute_def delete_from_transactions_def delete_from_merchants_def
      delete_from_customers_def and_then_simps connect_def commit_def purged_def)

lemma purge_Inr:
  assumes "purge e (connect db) = (Inr u, c')"
  shows "c' = connect (purged db)"
proof -
  from assms have "\<not> faulty e (Purge 0)" "\<not> faulty e (Purge 1)" "\<not> faulty e (Purge 2)"
    unfolding purge_def by (auto elim!: and_then_Inr dest: execute_Inr(1))
  from purge_ok [OF this, of db] assms show ?thesis by simp
qed

lemma print_statistics_Inr:
  assumes "print_statistics e c = (Inr u, c')"
  shows "c' = c"
proof -
  have sel: "execute e s select_statistics c0 = (Inr v, c1) \<Longrightarrow> c1 = c0" for s c0 v c1
    by (auto simp: execute_def select_statistics_def split: if_splits)
  from assms show ?thesis
    unfolding print_statistics_def and_then_lift
    by (auto elim!: and_then_Inr split: sum.splits option.splits dest!: sel)
qed

lemma print_statistics_ok:
  assumes "\<forall>i. \<not> faulty e (Statistics i)"
    and "\<exists>t \<in> set (transactions (txn c)). t_status t = ''approved''"
  shows "print_statistics e c = (Inr (), c)"
proof -
  have sel: "execute e (Statistics i) select_statistics c = (Inr (), c)" for i
    using assms(1) by (simp add: execute_def select_statistics_def)
  from assms(2) have "filter (\<lambda>t. t_status t = ''approved'') (transactions (txn c)) \<noteq> []"
    by (simp add: filter_empty_conv)
  then have "sql_sum (map t_amount
      (filter (\<lambda>t. t_status t = ''approved'') (transactions (txn c)))) \<noteq> None"
    by (simp add: sql_sum_def)
  then show ?thesis
    unfolding print_statistics_def by (auto simp: sel and_then_simps and_then_lift)
qed

lemma main_Inr:
  assumes "fst (main e cfg db) = Inr u"
  obtains c' where "generate_all e cfg (connect (purged db)) = (Inr (), c')"
    and "snd (main e cfg db) = txn c'"
proof -
  obtain r c where mb: "main_body e cfg (connect db) = (r, c)"
    by (cases "main_body e cfg (connect db)")
  with assms have r: "r = Inr u" and res: "snd (main e cfg db) = disk c"
    by (auto simp: main_def close_def split: sum.splits)
  from mb [unfolded r main_body_def] obtain u1 c1 u2 c2 where
    p: "purge e (connect db) = (Inr u1, c1)" and
    g: "generate_all e cfg c1 = (Inr u2, c2)" and
    s: "print_statistics e (commit c2) = (Inr u, c)"
    by (auto elim!: and_then_Inr)
  have "c1 = connect (purged db)" using purge_Inr [OF p] .
  moreover have "c = commit c2" using print_statistics_Inr [OF s] .
  ultimately have "generate_all e cfg (connect (purged db)) = (Inr (), c2)"
    "snd (main e cfg db) = txn c2"
    using g res by (simp_all add: commit_def)
  then show thesis by (rule that)
qed

lemma purged_empty:
  "customers (txn (connect (purged db))) = []"
  "merchants (txn (connect (purged db))) = []"
  "transactions (txn (connect (purged db))) = []"
  "disk (connect (purged db)) = purged db"
  by (simp_all add: connect_def purged_def)

lemma main_failure:
  assumes fail: "fst (main e cfg db) = Inl err"
    and np: "\<forall>i. \<not> faulty e (Purge i)"
    and ns: "\<forall>i. \<not> faulty e (Statistics i)"
  shows "snd (main e cfg db) = purged db"
proof -
  have p: "purge e (connect db) = (Inr (), connect (purged db))"
    using np by (intro purge_ok) simp_all
  obtain r c where g: "generate_all e cfg (connect (purged db)) = (r, c)"
    by (cases "generate_all e cfg (connect (purged db))")
  have d: "disk c = purged db"
    using generate_all_disk [of e cfg "connect (purged db)"] g by (simp add: purged_empty)
  show ?thesis
  proof (cases r)
    case (Inl err')
    then have "main_body e cfg (connect db) = (Inl err', c)"
      by (simp add: main_body_def p g and_then_simps)
    then show ?thesis by (simp add: main_def close_def rollback_def d)
  next
    case (Inr u)
    from generate_all_Inr [OF g [unfolded Inr] purged_empty(1,2,3)]
    obtain hv rows bulk where "transactions (txn c) = bulk @ hv # rows"
      "t_status hv = ''approved''" by blast
    then have "\<exists>t \<in> set (transactions (txn (commit c))). t_status t = ''approved''"
      by (auto simp: commit_def)
    from print_statistics_ok [OF ns this]
    have "main_body e cfg (connect db) = (Inr (), commit c)"
      by (simp add: main_body_def p g Inr and_then_simps)
    then have "fst (main e cfg db) = Inr ()" by (simp add: main_def)
    with fail show ?thesis by simp
  qed
qed

subsection \<open>The anomaly queries on a generated store\<close>








subsection \<open>Without a storage fault the generator succeeds\<close>

lemma insert_customer_Inl: "insert_customer n em ph d db = Inl err \<Longrightarrow> err = IntegrityError"
  by (auto simp: insert_customer_def Let_def split: if_splits)

lemma insert_merchant_Inl: "insert_merchant n cat d db = Inl err \<Longrightarrow> err = IntegrityError"
  by (auto simp: insert_merchant_def Let_def split: if_splits)

lemma execute_no_fault:
  "\<not> faulty e s \<Longrightarrow> execute e s stmt c =
     (case stmt (txn c) of Inl err \<Rightarrow> (Inl err, c) | Inr (v, db') \<Rightarrow> (Inr v, c\<lparr>txn := db'\<rparr>))"
  by (simp add: execute_def)

lemma customers_loop_total:
  assumes "\<forall>i. \<not> faulty e (Customers i)"
  shows "\<exists>ids c'. customers_loop e is acc c = (Inr ids, c') \<and> (acc \<noteq> [] \<longrightarrow> ids \<noteq> [])"
proof (induction "is" arbitrary: acc c)
  case Nil
  show ?case by simp
next
  case (Cons i "is")
  let ?stmt = "insert_customer (fake e (Name i)) (fake e (Email i)) (fake e (PhoneNumber i))
                (fake e (Cpf i))"
  show ?case
  proof (cases "?stmt (txn c)")
    case (Inl err)
    then have "err = IntegrityError" by (rule insert_customer_Inl)
    with Inl have "customers_loop e (i # is) acc c = customers_loop e is acc c"
      using assms by (simp add: execute_no_fault)
    with Cons.IH [of acc c] show ?thesis by simp
  next
    case (Inr p)
    obtain rid db' where p: "p = (rid, db')" by (cases p)
    with Inr have "customers_loop e (i # is) acc c
        = customers_loop e is (acc @ [rid]) (c\<lparr>txn := db'\<rparr>)"
      using assms by (simp add: execute_no_fault)
    with Cons.IH [of "acc @ [rid]" "c\<lparr>txn := db'\<rparr>"] show ?thesis by auto
  qed
qed

lemma customers_loop_nonempty:
  assumes nf: "\<forall>i. \<not> faulty e (Customers i)"
    and empty: "customers (txn c) = []" and ne: "is \<noteq> []"
  shows "\<exists>ids c'. customers_loop e is [] c = (Inr ids, c') \<and> ids \<noteq> []"
proof -
  from ne obtain i is' where eq: "is = i # is'" by (cases "is") auto
  let ?stmt = "insert_customer (fake e (Name i)) (fake e (Email i)) (fake e (PhoneNumber i))
                (fake e (Cpf i))"
  from empty obtain rid db' where "?stmt (txn c) = Inr (rid, db')"
    by (simp add: insert_customer_def Let_def)
  then have "customers_loop e is [] c = customers_loop e is' [rid] (c\<lparr>txn := db'\<rparr>)"
    using nf by (simp add: eq execute_no_fault)
  with customers_loop_total [OF nf, of is' "[rid]" "c\<lparr>txn := db'\<rparr>"] show ?thesis by auto
qed

lemma CATEGORIES_nonempty: "CATEGORIES \<noteq> []"
  by (simp add: CATEGORIES_def)

lemma choice_total: "xs \<noteq> [] \<Longrightarrow> \<exists>x. choice xs k = Inr x"
  by (simp add: choice_def)

lemma merchants_loop_total:
  assumes "\<forall>i. \<not> faulty e (Merchants i)"
  shows "\<exists>ids c'. merchants_loop e is acc c = (Inr ids, c') \<and> (acc \<noteq> [] \<longrightarrow> ids \<noteq> [])"
proof (induction "is" arbitrary: acc c)
  case Nil
  show ?case by simp
next
  case (Cons i "is")
  obtain category where cat: "choice CATEGORIES (raw e (MerchantCategory i)) = Inr category"
    using choice_total [OF CATEGORIES_nonempty] by blast
  let ?stmt = "insert_merchant (fake e (Company i)) category (fake e (Cnpj i))"
  show ?case
  proof (cases "?stmt (txn c)")
    case (Inl err)
    then have "err = IntegrityError" by (rule insert_merchant_Inl)
    with Inl have "merchants_loop e (i # is) acc c = merchants_loop e is acc c"
      using assms by (simp add: cat execute_no_fault)
    with Cons.IH [of acc c] show ?thesis by simp
  next
    case (Inr p)
    obtain rid db' where p: "p = (rid, db')" by (cases p)
    with Inr have "merchants_loop e (i # is) acc c
        = merchants_loop e is (acc @ [rid]) (c\<lparr>txn := db'\<rparr>)"
      using assms by (simp add: cat execute_no_fault)
    with Cons.IH [of "acc @ [rid]" "c\<lparr>txn := db'\<rparr>"] show ?thesis by auto
  qed
qed

lemma merchants_loop_nonempty:
  assumes nf: "\<forall>i. \<not> faulty e (Merchants i)"
    and empty: "merchants (txn c) = []" and ne: "is \<noteq> []"
  shows "\<exists>ids c'. merchants_loop e is [] c = (Inr ids, c') \<and> ids \<noteq> []"
proof -
  from ne obtain i is' where eq: "is = i # is'" by (cases "is") auto
  obtain category where cat: "choice CATEGORIES (raw e (MerchantCategory i)) = Inr category"
    using choice_total [OF CATEGORIES_nonempty] by blast
  let ?stmt = "insert_merchant (fake e (Company i)) category (fake e (Cnpj i))"
  from empty obtain rid db' where "?stmt (txn c) = Inr (rid, db')"
    by (simp add: insert_merchant_def Let_def)
  then have "merchants_loop e is [] c = merchants_loop e is' [rid] (c\<lparr>txn := db'\<rparr>)"
    using nf by (simp add: eq cat execute_no_fault)
  with merchants_loop_total [OF nf, of is' "[rid]" "c\<lparr>txn := db'\<rparr>"] show ?thesis by auto
qed

lemma choices_total:
  "length weights = length population \<Longrightarrow> population \<noteq> []
   \<Longrightarrow> \<exists>x. choices population weights k = Inr x"
  by (simp add: choices_def Let_def)

lemma execute_insert_transaction_total:
  "\<not> faulty e s \<Longrightarrow> \<exists>rid c'. execute e s (insert_transaction a b am pm st d de) c = (Inr rid, c')"
  by (simp add: execute_no_fault insert_transaction_def Let_def)

lemma transaction_step_total:
  assumes "\<not> faulty e (Transactions i)" "cids \<noteq> []" "mids \<noteq> []"
  shows "\<exists>rid c'. transaction_step e sd cids mids i c = (Inr rid, c')"
proof -
  obtain cu me pm st de where
    "choice cids (raw e (TxCustomer i)) = Inr cu"
    "choice mids (raw e (TxMerchant i)) = Inr me"
    "choices PAYMENT_METHODS METHOD_WEIGHTS (raw e (TxMethod i)) = Inr pm"
    "choices STATUSES STATUS_WEIGHTS (raw e (TxStatus i)) = Inr st"
    "choice descriptions (raw e (TxDescription i)) = Inr de"
    using choice_total [OF assms(2)] choice_total [OF assms(3)]
      choices_total [of METHOD_WEIGHTS PAYMENT_METHODS]
      choices_total [of STATUS_WEIGHTS STATUSES]
      choice_total [of descriptions]
    by (auto simp: PAYMENT_METHODS_def METHOD_WEIGHTS_def STATUSES_def STATUS_WEIGHTS_def
        descriptions_def) blast
  then show ?thesis
    unfolding transaction_step_def and_then_lift
    using execute_insert_transaction_total [OF assms(1)] by simp
qed

lemma transactions_loop_total:
  assumes "\<forall>i. \<not> faulty e (Transactions i)" "cids \<noteq> []" "mids \<noteq> []"
  shows "\<exists>c'. transactions_loop e sd cids mids is c = (Inr (), c')"
proof (induction "is" arbitrary: c)
  case Nil
  show ?case by simp
next
  case (Cons i "is")
  from transaction_step_total [OF _ assms(2,3), of e i sd c] assms(1)
  obtain rid c1 where "transaction_step e sd cids mids i c = (Inr rid, c1)" by blast
  with Cons.IH [of c1] show ?case by (simp add: and_then_simps)
qed

lemma burst_loop_total:
  assumes "\<forall>i. \<not> faulty e (Burst i)" "mids \<noteq> []"
  shows "\<exists>c'. burst_loop e cid mids base is c = (Inr (), c')"
proof (induction "is" arbitrary: c)
  case Nil
  show ?case by simp
next
  case (Cons i "is")
  obtain me pm where
    "choice mids (raw e (BurstMerchant i)) = Inr me"
    "choice PAYMENT_METHODS (raw e (BurstMethod i)) = Inr pm"
    using choice_total [OF assms(2)] choice_total [of PAYMENT_METHODS]
    by (auto simp: PAYMENT_METHODS_def) blast
  moreover have "\<not> faulty e (Burst i)" using assms(1) by simp
  ultimately obtain rid c1 where "burst_step e cid mids base i c = (Inr rid, c1)"
    unfolding burst_step_def and_then_lift
    using execute_insert_transaction_total [of e "Burst i"] by (simp, blast)
  with Cons.IH [of c1] show ?case by (simp add: and_then_simps)
qed

lemma generate_anomalies_total:
  assumes "\<forall>s. \<not> faulty e s" "cids \<noteq> []" "mids \<noteq> []"
  shows "\<exists>c'. generate_anomalies e cids mids c = (Inr (), c')"
proof -
  obtain hc hm cid where
    ch: "choice cids (raw e HvCustomer) = Inr hc"
      "choice mids (raw e HvMerchant) = Inr hm"
      "choice cids (raw e BurstCustomer) = Inr cid"
    using choice_total [OF assms(2)] choice_total [OF assms(3)] by blast
  obtain rid c1 where ex: "execute e HighValue
      (insert_transaction hc hm 25000 ''credit_card'' ''approved''
         (now e NowHighValue - timedelta 0 2 0 0) ''Compra de alto valor'') c = (Inr rid, c1)"
    using execute_insert_transaction_total [of e HighValue] assms(1) by blast
  from burst_loop_total [of e mids cid _ _ c1] assms(1,3) obtain c' where
    "burst_loop e cid mids (now e NowBurst - timedelta 0 1 0 0) [0..<10] c1 = (Inr (), c')"
    by blast
  then show ?thesis
    unfolding generate_anomalies_def and_then_lift by (simp add: ch ex and_then_simps)
qed

lemma generate_all_total:
  assumes nf: "\<forall>s. \<not> faulty e s"
    and n: "0 < NUM_CUSTOMERS cfg" "0 < NUM_MERCHANTS cfg"
    and empty: "customers (txn c) = []" "merchants (txn c) = []"
  shows "\<exists>c'. generate_all e cfg c = (Inr (), c')"
proof -
  from customers_loop_nonempty [of e c "[0..<NUM_CUSTOMERS cfg]"] nf n(1) empty(1)
  obtain cids c1 where gc: "generate_customers e cfg c = (Inr cids, c1)" and c: "cids \<noteq> []"
    by (auto simp: generate_customers_def)
  from customers_loop_Inr [OF gc [unfolded generate_customers_def]] empty(2)
  have "merchants (txn c1) = []" by simp
  from merchants_loop_nonempty [of e c1 "[0..<NUM_MERCHANTS cfg]"] nf n(2) this
  obtain mids c2 where gm: "generate_merchants e cfg c1 = (Inr mids, c2)" and m: "mids \<noteq> []"
    by (auto simp: generate_merchants_def)
  have "\<exists>c3. generate_transactions e cfg cids mids c2 = (Inr (), c3)"
    unfolding generate_transactions_def Let_def
    using nf c m by (intro transactions_loop_total) simp_all
  then obtain c3 where gt: "generate_transactions e cfg cids mids c2 = (Inr (), c3)" ..
  from generate_anomalies_total [OF nf c m, of c3]
  obtain c' where "generate_anomalies e cids mids c3 = (Inr (), c')" by blast
  then show ?thesis by (simp add: generate_all_def gc gm gt and_then_simps)
qed

lemma main_succeeds:
  assumes nf: "\<forall>s. \<not> faulty e s"
    and n: "0 < NUM_CUSTOMERS cfg" "0 < NUM_MERCHANTS cfg"
  shows "fst (main e cfg db) = Inr ()"
proof -
  have p: "purge e (connect db) = (Inr (), connect (purged db))"
    using nf by (intro purge_ok) simp_all
  from generate_all_total [OF nf n purged_empty(1,2)] obtain c where
    g: "generate_all e cfg (connect (purged db)) = (Inr (), c)" by blast
  from generate_all_Inr [OF g purged_empty(1,2,3)]
  obtain hv rows bulk where "transactions (txn c) = bulk @ hv # rows"
    "t_status hv = ''approved''" by blast
  then have "\<exists>t \<in> set (transactions (txn (commit c))). t_status t = ''approved''"
    by (auto simp: commit_def)
  with nf have "print_statistics e (commit c) = (Inr (), commit c)"
    by (intro print_statistics_ok) simp_all
  then have "main_body e cfg (connect db) = (Inr (), commit c)"
    by (simp add: main_body_def p g and_then_simps)
  then show ?thesis by (simp add: main_def)
qed

subsection \<open>The example runs, evaluated\<close>

lemma and_then_weak_cong: "r = r' \<Longrightarrow> and_then r f = and_then r' f"
  by simp

lemmas eval_congs =
  and_then_weak_cong prod.case_cong_weak sum.case_cong_weak option.case_cong_weak

lemma example_draws:
  "draw_amount example_env 0 = 10"
  "py_round2 (uniform 100 500 0) = 100"
  "choices STATUSES STATUS_WEIGHTS 0 = Inr ''approved''"
  "choices PAYMENT_METHODS METHOD_WEIGHTS 0 = Inr ''pix''"
  "draw_transaction_date example_env 1692229800000000 0 = 1692251400000000"
  "choice PAYMENT_METHODS 0 = Inr ''pix''"
  by code_simp+

lemma example_choices:
  "choice descriptions 0 = Inr ''Compra em estabelecimento''"
  "choice CATEGORIES 0 = Inr ''Supermercado''"
  "choice [x] 0 = Inr x"
  by (simp_all add: choice_def descriptions_def CATEGORIES_def)

lemma example_env_simps:
  "raw example_env d = 0" "now example_env k = 1700005800000000"
  "faulty example_env s = False"
  "fake example_env (Name i) = ''Ana''" "fake example_env (Email i) = ''ana@example.com''"
  "fake example_env (PhoneNumber i) = ''555-0001''" "fake example_env (Cpf i) = ''111''"
  "fake example_env (Company i) = ''Loja''" "fake example_env (Cnpj i) = ''221''"
  by (simp_all add: example_env_def)

lemma failing_env_simps:
  "raw failing_env d = 0" "now failing_env k = 1700005800000000"
  "faulty failing_env s = (s = Transactions 0)"
  "fake failing_env (Name i) = ''Ana''" "fake failing_env (Email i) = ''ana@example.com''"
  "fake failing_env (PhoneNumber i) = ''555-0001''" "fake failing_env (Cpf i) = ''111''"
  "fake failing_env (Company i) = ''Loja''" "fake failing_env (Cnpj i) = ''221''"
  by (simp_all add: failing_env_def example_env_def)

lemmas run_defs =
  main_def main_body_def purge_def generate_all_def and_then_simps connect_def execute_def
  example_config_def delete_from_transactions_def delete_from_merchants_def
  delete_from_customers_def commit_def generate_customers_def generate_merchants_def
  generate_transactions_def insert_customer_def insert_merchant_def
  insert_transaction_def next_rowid_def lift_def transaction_step_def
  burst_step_def upt_rec close_def rollback_def Let_def timedelta_def

lemma failing_run:
  "main failing_env example_config sample_db = (Inl OperationalError, purged sample_db)"
  by (simp add: run_defs example_draws example_choices failing_env_simps provisioned_def
      sample_db_def purged_def cong: eval_congs)

lemma stage1:
  "and_then (generate_customers example_env example_config (connect provisioned))
     (\<lambda>customer_ids c.
        and_then (generate_merchants example_env example_config c) (\<lambda>merchant_ids c.
          and_then (generate_transactions example_env example_config customer_ids merchant_ids c)
            (\<lambda>_ c. (Inr (customer_ids, merchant_ids), c))))
   = (Inr ([1], [1]), \<lparr>disk = provisioned, txn = after_bulk\<rparr>)"
  by (simp add: run_defs example_draws example_choices example_env_simps provisioned_def
      after_bulk_def cong: eval_congs)


lemma stage2:
  "execute example_env HighValue
     (insert_transaction 1 1 25000 ''credit_card'' ''approved'' 1699998600000000
        ''Compra de alto valor'') \<lparr>disk = provisioned, txn = after_bulk\<rparr>
   = (Inr 2, \<lparr>disk = provisioned, txn = after_high_value\<rparr>)"
  by (simp add: run_defs example_env_simps provisioned_def after_bulk_def after_high_value_def
      cong: eval_congs)

lemma stage3:
  "burst_loop example_env 1 [1] 1700002200000000 [0..<10]
     \<lparr>disk = provisioned, txn = after_high_value\<rparr>
   = (Inr (), \<lparr>disk = provisioned, txn = generated_db\<rparr>)"
  by (simp add: run_defs example_draws example_choices example_env_simps provisioned_def
      after_bulk_def after_high_value_def generated_db_def cong: eval_congs)

lemma stage23:
  "generate_anomalies example_env [1] [1] \<lparr>disk = provisioned, txn = after_bulk\<rparr>
   = (Inr (), \<lparr>disk = provisioned, txn = generated_db\<rparr>)"
  unfolding generate_anomalies_def and_then_lift
  by (simp add: example_choices example_env_simps timedelta_def stage2 stage3 and_then_simps)

lemma example_generate_all:
  "generate_all example_env example_config (connect provisioned)
   = (Inr (), \<lparr>disk = provisioned, txn = generated_db\<rparr>)"
proof -
  have "generate_all example_env example_config (connect provisioned)
    = and_then (and_then (generate_customers example_env example_config (connect provisioned))
     (\<lambda>customer_ids c.
        and_then (generate_merchants example_env example_config c) (\<lambda>merchant_ids c.
          and_then (generate_transactions example_env example_config customer_ids merchant_ids c)
            (\<lambda>_ c. (Inr (customer_ids, merchant_ids), c)))))
       (\<lambda>ids c. generate_anomalies example_env (fst ids) (snd ids) c)"
    by (simp add: generate_all_def and_then_def split: prod.splits sum.splits)
  then show ?thesis by (simp add: stage1 stage23 and_then_simps)
qed

lemma example_run: "main example_env example_config provisioned = (Inr (), generated_db)"
proof -
  have p: "purge example_env (connect provisioned) = (Inr (), connect provisioned)"
    using purge_ok [of example_env provisioned]
    by (simp add: example_env_simps purged_def provisioned_def)
  have "\<exists>t \<in> set (transactions generated_db). t_status t = ''approved''"
    by (simp add: generated_db_def)
  then have s: "print_statistics example_env \<lparr>disk = generated_db, txn = generated_db\<rparr>
      = (Inr (), \<lparr>disk = generated_db, txn = generated_db\<rparr>)"
    by (intro print_statistics_ok) (simp_all add: example_env_simps)
  show ?thesis
    by (simp add: main_def main_body_def p example_generate_all s and_then_simps close_def
        commit_def)
qed

section \<open>Properties of the generator\<close>

text \<open>
  C7. After a successful run of the generator, every transaction row of the store (the
  rows of earlier runs are gone, so these are the bulk transactions and the injected
  anomalies of this run) refers to a customer and to a merchant present in the store, has
  a positive amount, one of the four statuses and one of the four payment methods.
\<close>

theorem generated_transactions_are_valid:
  assumes "fst (main e cfg db) = Inr ()"
  shows "\<forall>t \<in> set (transactions (snd (main e cfg db))).
           t_customer_id t \<in> set (map c_id (customers (snd (main e cfg db))))
           \<and> t_merchant_id t \<in> set (map m_id (merchants (snd (main e cfg db))))
           \<and> 0 < t_amount t
           \<and> t_status t \<in> {''approved'', ''declined'', ''pending'', ''refunded''}
           \<and> t_payment_method t \<in> {''pix'', ''credit_card'', ''debit_card'', ''boleto''}"
proof -
  from assms obtain c' where g: "generate_all e cfg (connect (purged db)) = (Inr (), c')"
    and res: "snd (main e cfg db) = txn c'" by (rule main_Inr)
  from generate_all_Inr [OF g purged_empty(1,2,3)] obtain cids mids where
    ids: "set cids \<subseteq> c_id ` set (customers (txn c'))"
      "set mids \<subseteq> m_id ` set (merchants (txn c'))"
    and ok: "\<forall>t \<in> set (transactions (txn c')). generated_from cids mids t" by blast
  show ?thesis unfolding res
    using ids ok by (auto simp: generated_from_def STATUSES_def PAYMENT_METHODS_def)
qed

theorem generated_transactions_are_valid_witness:
  "main example_env example_config provisioned = (Inr (), generated_db)
   \<and> length (transactions generated_db) = 12
   \<and> t_customer_id (transactions generated_db ! 11) \<in> set (map c_id (customers generated_db))
   \<and> t_merchant_id (transactions generated_db ! 11) \<in> set (map m_id (merchants generated_db))
   \<and> 0 < t_amount (transactions generated_db ! 11)
   \<and> t_status (transactions generated_db ! 11)
         \<in> {''approved'', ''declined'', ''pending'', ''refunded''}
   \<and> t_payment_method (transactions generated_db ! 11)
         \<in> {''pix'', ''credit_card'', ''debit_card'', ''boleto''}"
proof -
  have ok: "fst (main example_env example_config provisioned) = Inr ()"
    by (simp add: example_run)
  have len: "length (transactions generated_db) = 12" by (simp add: generated_db_def)
  then have "transactions generated_db ! 11 \<in> set (transactions generated_db)" by simp
  with generated_transactions_are_valid [OF ok] len show ?thesis
    by (simp add: example_run)
qed




text \<open>
  C1, as amended. When an exception is raised during data generation, that is after the
  deletion of the old rows has been committed and before the final commit, no row inserted
  by the failing run is retained, and the rows that existed before the run are not
  restored either: all three tables are left empty (the id counters keep their values).
\<close>

theorem generation_failure_leaves_empty_tables:
  assumes "fst (main e cfg db) = Inl err"
    and "\<forall>i. \<not> faulty e (Purge i)"
    and "\<forall>i. \<not> faulty e (Statistics i)"
  shows "snd (main e cfg db) = db\<lparr>transactions := [], merchants := [], customers := []\<rparr>"
  using main_failure [OF assms] by (simp add: purged_def)

theorem generation_failure_leaves_empty_tables_witness:
  "main failing_env example_config sample_db
   = (Inl OperationalError, sample_db\<lparr>transactions := [], merchants := [], customers := []\<rparr>)"
proof -
  have "fst (main failing_env example_config sample_db) = Inl OperationalError"
    by (simp add: failing_run)
  from generation_failure_leaves_empty_tables [OF this] show ?thesis
    by (simp add: failing_run failing_env_simps purged_def)
qed

text \<open>
  The claim as stated fails: a storage fault at the first bulk transaction, on a store
  that holds three transactions, two merchants and two customers from before, leaves all
  three tables empty.
\<close>

theorem generation_failure_counterexample:
  "fst (main failing_env example_config sample_db) = Inl OperationalError
   \<and> length (transactions sample_db) = 3
   \<and> length (merchants sample_db) = 2
   \<and> length (customers sample_db) = 2
   \<and> transactions (snd (main failing_env example_config sample_db)) = []
   \<and> merchants (snd (main failing_env example_config sample_db)) = []
   \<and> customers (snd (main failing_env example_config sample_db)) = []"
proof -
  have "length (transactions sample_db) = 3 \<and> length (merchants sample_db) = 2
        \<and> length (customers sample_db) = 2"
    by (simp add: sample_db_def)
  then show ?thesis by (simp add: failing_run purged_def)
qed

end
